theory Spec2Isabelle
  imports Complex_Main "HOL-Library.Sublist" "HOL-Library.FSet"
begin

section \<open>Hail expressions with missing values\<close>

text \<open>
  The notebooks are written against the Hail expression language.  Every Hail
  expression may evaluate to a missing value; a value of Hail type \<open>t\<close> is
  modelled as \<open>t option\<close> with \<open>None\<close> for missing.  \<open>int32\<close> fields are
  \<open>int\<close>, \<open>float64\<close> fields are \<open>real\<close> (rounding is not modelled).

  The functions of this section are the library operators the notebook cells
  apply; they follow the documented behaviour of the library: comparison and
  arithmetic are missing when an operand is missing, \<open>hl.if_else\<close> is missing
  when its condition is missing, a \<open>hl.case()\<close> chain is the nested
  \<open>hl.if_else\<close> of its clauses in order, \<open>d.get(k)\<close> is missing when the key
  is absent, and \<open>hl.coalesce\<close> is its first non-missing argument.
\<close>

definition hl_eq :: "'a option \<Rightarrow> 'a option \<Rightarrow> bool option" where
  "hl_eq a b = (case a of None \<Rightarrow> None
                | Some x \<Rightarrow> (case b of None \<Rightarrow> None | Some y \<Rightarrow> Some (x = y)))"

definition hl_gt :: "'a::linorder option \<Rightarrow> 'a option \<Rightarrow> bool option" where
  "hl_gt a b = (case a of None \<Rightarrow> None
                | Some x \<Rightarrow> (case b of None \<Rightarrow> None | Some y \<Rightarrow> Some (x > y)))"

definition hl_lt :: "'a::linorder option \<Rightarrow> 'a option \<Rightarrow> bool option" where
  "hl_lt a b = (case a of None \<Rightarrow> None
                | Some x \<Rightarrow> (case b of None \<Rightarrow> None | Some y \<Rightarrow> Some (x < y)))"

definition hl_add :: "'a::plus option \<Rightarrow> 'a option \<Rightarrow> 'a option" where
  "hl_add a b = (case a of None \<Rightarrow> None
                 | Some x \<Rightarrow> (case b of None \<Rightarrow> None | Some y \<Rightarrow> Some (x + y)))"

definition hl_mul :: "'a::times option \<Rightarrow> 'a option \<Rightarrow> 'a option" where
  "hl_mul a b = (case a of None \<Rightarrow> None
                 | Some x \<Rightarrow> (case b of None \<Rightarrow> None | Some y \<Rightarrow> Some (x * y)))"

definition hl_if_else :: "bool option \<Rightarrow> 'a option \<Rightarrow> 'a option \<Rightarrow> 'a option" where
  "hl_if_else c t e = (case c of None \<Rightarrow> None | Some b \<Rightarrow> (if b then t else e))"

fun hl_case :: "(bool option \<times> 'a option) list \<Rightarrow> 'a option \<Rightarrow> 'a option" where
  "hl_case [] d = d"
| "hl_case ((c, v) # ws) d = hl_if_else c v (hl_case ws d)"

definition hl_coalesce :: "'a option \<Rightarrow> 'a option \<Rightarrow> 'a option" where
  "hl_coalesce a b = (case a of Some x \<Rightarrow> Some x | None \<Rightarrow> b)"

definition hl_get :: "('k \<rightharpoonup> 'v) option \<Rightarrow> 'k option \<Rightarrow> 'v option" where
  "hl_get d k = (case d of None \<Rightarrow> None
                 | Some m \<Rightarrow> (case k of None \<Rightarrow> None | Some x \<Rightarrow> m x))"


section \<open>Relatedness notebook: \<open>get_rel\<close>\<close>

text \<open>
  \<^verbatim>\<open>
  rel = mt1.index_globals().relatedness
  def get_rel(s1, s2):
      return (hl.case()
              .when(s1 == s2, 0.5)
              .when(s1 > s2, hl.coalesce(rel.get(s1).get(s2), 0.0))
              .default(hl.coalesce(rel.get(s2).get(s1), 0.0))) + hl.rand_norm(0, 0.005) # jitter
  \<close>
  \<open>rel\<close> is the relatedness graph of the simulated matrix table, a dictionary
  from sample index to a dictionary from sample index to kinship.
  \<open>get_rel_case\<close> is the parenthesised \<open>hl.case()\<close> expression; \<open>get_rel\<close> adds
  the value drawn by \<open>hl.rand_norm(0, 0.005)\<close>, which is passed as \<open>jitter\<close>.
  The sum is a \<open>float64\<close> addition in the program and the exact sum here: a
  draw too small to change 0.5 in \<open>float64\<close> still changes it in the model.
\<close>

type_synonym relatedness = "int \<rightharpoonup> (int \<rightharpoonup> real)"

definition get_rel_case :: "relatedness \<Rightarrow> int option \<Rightarrow> int option \<Rightarrow> real option" where
  "get_rel_case rel s1 s2 =
     hl_case
       [(hl_eq s1 s2, Some (1/2)),
        (hl_gt s1 s2, hl_coalesce (hl_get (hl_get (Some rel) s1) s2) (Some 0))]
       (hl_coalesce (hl_get (hl_get (Some rel) s2) s1) (Some 0))"

definition get_rel :: "relatedness \<Rightarrow> int option \<Rightarrow> int option \<Rightarrow> real \<Rightarrow> real option" where
  "get_rel rel s1 s2 jitter = hl_add (get_rel_case rel s1 s2) (Some jitter)"

text \<open>
  The value on the x axis of the identity-by-descent plot:
  \<^verbatim>\<open>hl.plot.scatter(get_rel(ibd.i, ibd.j) * 2, ibd.ibd.PI_HAT, ...)\<close>.
\<close>

definition ibd_plot_x :: "relatedness \<Rightarrow> int option \<Rightarrow> int option \<Rightarrow> real \<Rightarrow> real option" where
  "ibd_plot_x rel i j jitter = hl_mul (get_rel rel i j jitter) (Some 2)"

text \<open>
  The entry \<open>rel[a][b]\<close> of the relatedness graph with default \<open>0.0\<close>, as the
  specification words it; and what the specification calls threading
  identifiers: the two sample indices handed, as they come, to the lookup in
  the relatedness graph.
\<close>

definition threaded_lookup :: "relatedness \<Rightarrow> int option \<Rightarrow> int option \<Rightarrow> real option" where
  "threaded_lookup rel s1 s2 = hl_get (hl_get (Some rel) s1) s2"

definition rel_entry :: "relatedness \<Rightarrow> int \<Rightarrow> int \<Rightarrow> real" where
  "rel_entry rel a b =
     (case rel a of None \<Rightarrow> 0 | Some d \<Rightarrow> (case d b of None \<Rightarrow> 0 | Some v \<Rightarrow> v))"


section \<open>Rare-variant notebook: data\<close>

text \<open>
  A genotype call is a pair of allele indices (index 0 is the reference
  allele); an entry of the matrix table is a call or missing.
\<close>

datatype call = Call nat nat

fun n_alt_alleles :: "call \<Rightarrow> int" where
  "n_alt_alleles (Call a b) = (if a \<noteq> 0 then 1 else 0) + (if b \<noteq> 0 then 1 else 0)"

fun is_hom_ref :: "call \<Rightarrow> bool" where
  "is_hom_ref (Call a b) = (a = 0 \<and> b = 0)"

text \<open>
  A row of the matrix table (a variant) with the row fields the notebook reads
  (\<open>locus\<close>, \<open>alleles\<close>, \<open>filters\<close>, \<open>vep.most_severe_consequence\<close>,
  \<open>cadd.phred\<close>), the row fields it adds (\<open>gene_name\<close>, \<open>weight1\<close>,
  \<open>weight2\<close>, \<open>variant_qc.AF\<close>, \<open>weight\<close>; missing until annotated) and the
  row's entries \<open>GT\<close>, one per column.  A column (a sample) has its key \<open>s\<close>
  and the column fields the notebooks add.
\<close>

record variant =
  locus :: "string \<times> int"
  alleles :: "string list"
  filters :: "string fset option"
  most_severe_consequence :: "string option"
  cadd_phred :: "real option"
  gene_name :: "string option"
  weight1 :: "int option"
  weight2 :: "real option"
  variant_qc_AF :: "real list option"
  weight :: "real option"
  GT :: "call option list"

record sample =
  col_s :: string
  sample_idx :: "int option"
  sample_data :: "(string \<times> string) list option"
  pheno1 :: "real option"
  pheno2 :: "real option"
  pca :: "real list option"

record matrix_table =
  cols :: "sample list"
  rows :: "variant list"

text \<open>The entry of row \<open>r\<close> in column \<open>j\<close>.\<close>

definition entry :: "variant \<Rightarrow> nat \<Rightarrow> call option" where
  "entry r j = (if j < length (GT r) then GT r ! j else None)"

text \<open>
  A grouped matrix table, as \<open>group_rows_by(mt.gene_name).aggregate(n_variants = ...)\<close>
  returns it: one row per gene name with an \<open>n_variants\<close> entry per column.
\<close>

record gene_row =
  gene :: "string option"
  n_variants :: "int list"

record gene_matrix =
  gcols :: "sample list"
  grows :: "gene_row list"

text \<open>The tables the notebooks load, and the files they are loaded from.\<close>

record gene_interval =
  contig :: string
  start_pos :: int
  end_pos :: int
  includes_start :: bool
  includes_end :: bool
  interval_gene_name :: "string option"

datatype table =
    GeneTable "gene_interval list"
  | PhenoTable "(string \<times> real option \<times> real option) list"
  | SampleTable "(string \<times> (string \<times> string) list) list"

datatype resource =
    MatrixTableFile matrix_table
  | TableFile table
  | DelimitedFile table

type_synonym files = "string \<rightharpoonup> resource"

text \<open>
  An exception of the run: a name that is not bound, or an error raised by a
  library call (a loader that fails, an array index out of bounds, a failure
  inside a statistical method).
\<close>

datatype error = NameError string | HailError string

text \<open>A row of the table \<open>hl.skat\<close> returns.\<close>

record skat_row =
  skat_id :: "string option"
  skat_size :: int
  q_stat :: "real option"
  p_value :: "real option"
  fault :: "int option"


section \<open>Library aggregators and array indexing\<close>

text \<open>
  \<open>hl.agg.count_where\<close> counts the records whose condition is true (a missing
  condition is not counted), \<open>hl.agg.sum\<close> skips missing records, and
  \<open>hl.agg.all(c)\<close> is \<open>count_where(~c) == 0\<close>.
\<close>

definition count_where :: "bool option list \<Rightarrow> int" where
  "count_where bs = int (length (filter (\<lambda>b. b = Some True) bs))"

definition agg_sum :: "int option list \<Rightarrow> int" where
  "agg_sum xs = sum_list (map (\<lambda>x. case x of None \<Rightarrow> 0 | Some v \<Rightarrow> v) xs)"

definition agg_all :: "bool option list \<Rightarrow> bool" where
  "agg_all bs = (count_where (map (map_option Not) bs) = 0)"

text \<open>
  \<open>hl.agg.call_stats(GT, alleles).AF\<close>: the frequency of each allele among the
  called (non-missing) genotypes, missing when nothing is called.
\<close>

definition called :: "call option list \<Rightarrow> call list" where
  "called gts = List.map_filter (\<lambda>g. g) gts"

fun copies :: "nat \<Rightarrow> call \<Rightarrow> int" where
  "copies i (Call a b) = (if a = i then 1 else 0) + (if b = i then 1 else 0)"

definition AC :: "nat \<Rightarrow> call list \<Rightarrow> int" where
  "AC i cs = sum_list (map (copies i) cs)"

definition AN :: "call list \<Rightarrow> int" where
  "AN cs = 2 * int (length cs)"

definition call_stats_AF :: "call option list \<Rightarrow> string list \<Rightarrow> real list option" where
  "call_stats_AF gts als =
     (let cs = called gts in
      if AN cs = 0 then None
      else Some (map (\<lambda>i. real_of_int (AC i cs) / real_of_int (AN cs)) [0..<length als]))"

text \<open>\<open>a[i]\<close> on an array expression: missing on a missing array, an error out of range.\<close>

definition hl_index :: "'a list option \<Rightarrow> nat \<Rightarrow> error + 'a option" where
  "hl_index a i =
     (case a of None \<Rightarrow> Inr None
      | Some xs \<Rightarrow> if i < length xs then Inr (Some (xs ! i))
                   else Inl (HailError ''array index out of bounds''))"

text \<open>
  \<open>hl.dbeta(x, a, b)\<close>, the density of the Beta distribution, for the integer
  shape parameters the notebook passes; \<open>pbeta\<close> is the distribution function
  of Beta(1, b), which the notebook's prose mentions and the code does not use.
\<close>

definition dbeta :: "real \<Rightarrow> nat \<Rightarrow> nat \<Rightarrow> real" where
  "dbeta x a b =
     (if 0 \<le> x \<and> x \<le> 1
      then x ^ (a - 1) * (1 - x) ^ (b - 1) * fact (a + b - 1) / (fact (a - 1) * fact (b - 1))
      else 0)"

definition pbeta_1 :: "real \<Rightarrow> nat \<Rightarrow> real" where
  "pbeta_1 x b = (if x < 0 then 0 else if 1 < x then 1 else 1 - (1 - x) ^ b)"

text \<open>
  \<open>mt.filter_rows(expr, keep)\<close>: a row stays when \<open>expr\<close> evaluates to \<open>keep\<close>;
  a row whose \<open>expr\<close> is missing is removed whatever \<open>keep\<close> is; an error raised
  while evaluating \<open>expr\<close> ends the run.
\<close>

fun filter_rows_list :: "('r \<Rightarrow> error + bool option) \<Rightarrow> bool \<Rightarrow> 'r list \<Rightarrow> error + 'r list" where
  "filter_rows_list p keep [] = Inr []"
| "filter_rows_list p keep (r # rs) =
     (case p r of Inl e \<Rightarrow> Inl e
      | Inr b \<Rightarrow> (case filter_rows_list p keep rs of Inl e \<Rightarrow> Inl e
                  | Inr rs' \<Rightarrow> Inr (if b = Some keep then r # rs' else rs')))"

text \<open>\<open>annotate_rows\<close> / \<open>annotate_cols\<close> with an expression that may raise.\<close>

fun annotate_list :: "('a \<Rightarrow> error + 'b) \<Rightarrow> 'a list \<Rightarrow> error + 'b list" where
  "annotate_list f [] = Inr []"
| "annotate_list f (r # rs) =
     (case f r of Inl e \<Rightarrow> Inl e
      | Inr r' \<Rightarrow> (case annotate_list f rs of Inl e \<Rightarrow> Inl e | Inr rs' \<Rightarrow> Inr (r' # rs')))"


section \<open>Rare-variant notebook: quality control\<close>

text \<open>
  \<^verbatim>\<open>
  # remove non-PASS variants
  mt = mt.filter_rows(hl.len(mt.filters) == 0)
  mt = mt.filter_rows(hl.agg.call_stats(mt.GT, mt.alleles).AF[1] < 0.01)
  mt = mt.filter_rows(hl.agg.all(mt.GT.is_hom_ref()), keep=False)
  \<close>
\<close>

definition pass_expr :: "variant \<Rightarrow> error + bool option" where
  "pass_expr r = Inr (hl_eq (map_option (\<lambda>f. int (fcard f)) (filters r)) (Some 0))"

definition rare_expr :: "variant \<Rightarrow> error + bool option" where
  "rare_expr r =
     (case hl_index (call_stats_AF (GT r) (alleles r)) 1 of
        Inl e \<Rightarrow> Inl e
      | Inr af \<Rightarrow> Inr (hl_lt af (Some (1/100))))"

definition all_hom_ref_expr :: "variant \<Rightarrow> error + bool option" where
  "all_hom_ref_expr r = Inr (Some (agg_all (map (map_option is_hom_ref) (GT r))))"

text \<open>
  The predicate of the quality-control invariant, in the words of the
  specification: an empty filters set, a frequency of the first alternate
  allele strictly below 0.01, and a call that is not homozygous reference.
\<close>

definition alt_allele_frequency :: "variant \<Rightarrow> real option" where
  "alt_allele_frequency r =
     (if called (GT r) = [] then None
      else Some (real_of_int (AC 1 (called (GT r))) / (2 * real (length (called (GT r))))))"

definition qc_ok :: "variant \<Rightarrow> bool" where
  "qc_ok r =
     (filters r = Some {||}
      \<and> (case alt_allele_frequency r of None \<Rightarrow> False | Some af \<Rightarrow> af < 1/100)
      \<and> (\<exists>c \<in> set (called (GT r)). \<not> is_hom_ref c))"


section \<open>Rare-variant notebook: annotation\<close>

text \<open>
  \<^verbatim>\<open>
  mt = mt.annotate_rows(gene_name = genes[mt.locus].gene_name)
  mt = mt.annotate_cols(pheno1 = phenos[mt.s].pheno1, pheno2 = phenos[mt.s].pheno2)
  \<close>
  \<open>genes\<close> is keyed by interval and \<open>phenos\<close> by sample; indexing a table of
  another kind is an error, raised when the expression is built
  (\<open>genes_index\<close>, \<open>phenos_index\<close>), whatever the rows are.
\<close>

definition interval_contains :: "gene_interval \<Rightarrow> string \<times> int \<Rightarrow> bool" where
  "interval_contains iv l =
     (contig iv = fst l
      \<and> (start_pos iv < snd l \<or> (includes_start iv \<and> start_pos iv = snd l))
      \<and> (snd l < end_pos iv \<or> (includes_end iv \<and> end_pos iv = snd l)))"

definition genes_index :: "table \<Rightarrow> error + (string \<times> int \<Rightarrow> string option)" where
  "genes_index t =
     (case t of
        GeneTable ivs \<Rightarrow>
          Inr (\<lambda>l. case find (\<lambda>iv. interval_contains iv l) ivs of
                      None \<Rightarrow> None | Some iv \<Rightarrow> interval_gene_name iv)
      | _ \<Rightarrow> Inl (HailError ''key type mismatch''))"

definition annotate_gene_name :: "(string \<times> int \<Rightarrow> string option) \<Rightarrow> variant \<Rightarrow> error + variant" where
  "annotate_gene_name gene_of r = Inr (r\<lparr>gene_name := gene_of (locus r)\<rparr>)"

definition phenos_index :: "table \<Rightarrow> error + (string \<Rightarrow> (real option \<times> real option) option)" where
  "phenos_index t =
     (case t of
        PhenoTable ps \<Rightarrow> Inr (map_of ps)
      | _ \<Rightarrow> Inl (HailError ''key type mismatch''))"

definition annotate_phenos ::
  "(string \<Rightarrow> (real option \<times> real option) option) \<Rightarrow> sample \<Rightarrow> error + sample" where
  "annotate_phenos pheno_of c =
     Inr (c\<lparr>pheno1 := Option.bind (pheno_of (col_s c)) fst,
            pheno2 := Option.bind (pheno_of (col_s c)) snd\<rparr>)"

text \<open>
  \<^verbatim>\<open>
  mt = mt.annotate_rows(
      weight1 = (hl.case()
                 .when(mt.vep.most_severe_consequence == "synonymous_variant", 2)
                 .when(mt.vep.most_severe_consequence == "intron_variant", 3)
                 .when(mt.vep.most_severe_consequence == "missense_variant", 5)
                 .default(1)),
      weight2 = mt.cadd.phred
  )
  \<close>
\<close>

definition annotate_weights :: "variant \<Rightarrow> variant" where
  "annotate_weights r =
     r\<lparr>weight1 :=
         hl_case
           [(hl_eq (most_severe_consequence r) (Some ''synonymous_variant''), Some 2),
            (hl_eq (most_severe_consequence r) (Some ''intron_variant''), Some 3),
            (hl_eq (most_severe_consequence r) (Some ''missense_variant''), Some 5)]
           (Some 1),
       weight2 := cadd_phred r\<rparr>"


section \<open>Rare-variant notebook: burden tests\<close>

text \<open>
  \<^verbatim>\<open>
  burden_mt = mt.group_rows_by(mt.gene_name).aggregate(
      n_variants = hl.agg.count_where(mt.GT.n_alt_alleles() > 0)
  )
  # filter to genes with at least one rare variant!
  burden_mt = burden_mt.filter_rows(hl.agg.sum(burden_mt.n_variants) > 0)
  \<close>
  \<open>group_aggregate\<close> is \<open>group_rows_by(mt.gene_name).aggregate(n_variants =
  hl.agg.count_where(cond))\<close> for an entry condition \<open>cond\<close>: one row per
  distinct gene name (rows without a gene name form a group of their own),
  whose entry in column \<open>j\<close> counts the rows of the group whose entry in
  column \<open>j\<close> satisfies \<open>cond\<close>.  (The library orders the groups by key; here
  they are in order of first occurrence.)
\<close>

definition group_aggregate ::
  "(variant \<Rightarrow> call option \<Rightarrow> bool option) \<Rightarrow> matrix_table \<Rightarrow> gene_matrix" where
  "group_aggregate cond mt =
     \<lparr>gcols = cols mt,
      grows =
        map (\<lambda>k. \<lparr>gene = k,
                  n_variants =
                    map (\<lambda>j. count_where
                               (map (\<lambda>r. cond r (entry r j))
                                    (filter (\<lambda>r. gene_name r = k) (rows mt))))
                        [0..<length (cols mt)]\<rparr>)
            (remdups (map gene_name (rows mt)))\<rparr>"

definition has_alt :: "variant \<Rightarrow> call option \<Rightarrow> bool option" where
  "has_alt r g = hl_gt (map_option n_alt_alleles g) (Some 0)"

definition has_weighted_alt :: "variant \<Rightarrow> call option \<Rightarrow> bool option" where
  "has_weighted_alt r g =
     hl_gt (hl_mul (weight2 r) (map_option (\<lambda>c. real_of_int (n_alt_alleles c)) g)) (Some 0)"

definition some_variant_expr :: "gene_row \<Rightarrow> error + bool option" where
  "some_variant_expr gr = Inr (hl_gt (Some (agg_sum (map Some (n_variants gr)))) (Some 0))"

definition filter_some_variant :: "gene_matrix \<Rightarrow> error + gene_matrix" where
  "filter_some_variant gm =
     (case filter_rows_list some_variant_expr True (grows gm) of
        Inl e \<Rightarrow> Inl e
      | Inr rs \<Rightarrow> Inr (gm\<lparr>grows := rs\<rparr>))"

definition burden_mt_of :: "matrix_table \<Rightarrow> error + gene_matrix" where
  "burden_mt_of mt = filter_some_variant (group_aggregate has_alt mt)"

definition weighted_xx_of :: "matrix_table \<Rightarrow> error + gene_matrix" where
  "weighted_xx_of mt = filter_some_variant (group_aggregate has_weighted_alt mt)"

text \<open>
  The sum the specification describes: over the variants of gene \<open>g\<close>, the
  alternate-allele count of sample \<open>j\<close> (a missing call adds nothing), and the
  same sum with each count multiplied by the variant's weight.
\<close>

definition alt_allele_sum :: "variant list \<Rightarrow> string \<Rightarrow> nat \<Rightarrow> int" where
  "alt_allele_sum rs g j =
     sum_list (map (\<lambda>r. case entry r j of None \<Rightarrow> 0 | Some c \<Rightarrow> n_alt_alleles c)
                   (filter (\<lambda>r. gene_name r = Some g) rs))"

definition weighted_alt_allele_sum :: "variant list \<Rightarrow> string \<Rightarrow> nat \<Rightarrow> real" where
  "weighted_alt_allele_sum rs g j =
     sum_list (map (\<lambda>r. case entry r j of None \<Rightarrow> 0
                         | Some c \<Rightarrow> (case weight2 r of None \<Rightarrow> 0
                                      | Some w \<Rightarrow> w * real_of_int (n_alt_alleles c)))
                   (filter (\<lambda>r. gene_name r = Some g) rs))"


section \<open>Rare-variant notebook: SKAT\<close>

text \<open>
  \<^verbatim>\<open>
  skat_mt = hl.variant_qc(skat_mt)
  skat_mt = skat_mt.annotate_rows(
      weight = hl.dbeta(skat_mt.variant_qc.AF[1], 1, 25)
  )
  ...
  ht = skat_results
  ht = ht.annotate(
      p_value = hl.if_else(ht.fault == 0, ht.p_value, 1)
  )
  \<close>
\<close>

definition variant_qc :: "variant \<Rightarrow> variant" where
  "variant_qc r = r\<lparr>variant_qc_AF := call_stats_AF (GT r) (alleles r)\<rparr>"

definition annotate_skat_weight :: "variant \<Rightarrow> error + variant" where
  "annotate_skat_weight r =
     (case hl_index (variant_qc_AF r) 1 of
        Inl e \<Rightarrow> Inl e
      | Inr af \<Rightarrow> Inr (r\<lparr>weight := map_option (\<lambda>x. dbeta x 1 25) af\<rparr>))"

definition annotate_fault :: "skat_row \<Rightarrow> skat_row" where
  "annotate_fault r =
     r\<lparr>p_value := hl_if_else (hl_eq (fault r) (Some 0)) (p_value r) (Some 1)\<rparr>"


section \<open>The notebooks as runs of cells\<close>

text \<open>
  The statistical methods of the library are parameters of the model:
  \<open>hl.hwe_normalized_pca(mt.GT)\<close> takes the calls (by row) and the column
  keys and returns the table of scores keyed by sample;
  \<open>hl.linear_regression_rows(y, x, covariates)\<close> takes \<open>y\<close> by column, \<open>x\<close> by
  row and column and the covariates by column and returns one result per row;
  \<open>hl.skat(key_expr, weight_expr, y, x, covariates)\<close> takes the key and the
  weight by row, \<open>y\<close> by column, \<open>x\<close> by row and column and the covariates by
  column.  Each of them may raise.
\<close>

record linreg_row =
  lr_beta :: "real option"
  lr_p_value :: "real option"

text \<open>
  The variable \<open>ht\<close> is bound in turn to tables of three kinds: regression
  results by gene, regression results by variant, and SKAT results.
\<close>

datatype results_table =
    GeneResults "(string option \<times> linreg_row) list"
  | VariantResults "((string \<times> int) \<times> linreg_row) list"
  | SkatResults "skat_row list"

record hail =
  hwe_normalized_pca :: "call option list list \<Rightarrow> string list \<Rightarrow> error + (string \<times> real list) list"
  linear_regression_rows ::
    "real option list \<Rightarrow> real option list list \<Rightarrow> real option list list \<Rightarrow> error + linreg_row list"
  skat ::
    "string option list \<Rightarrow> real option list \<Rightarrow> real option list \<Rightarrow> real option list list
       \<Rightarrow> real option list list \<Rightarrow> error + skat_row list"

text \<open>
  The state of a notebook kernel: the files under \<open>resources/\<close> and the
  variables the cells bind (unbound until the binding cell has run).
\<close>

record notebook =
  files :: files
  v_mt :: "matrix_table option"
  v_sd :: "table option"
  v_genes :: "table option"
  v_phenos :: "table option"
  v_burden_mt :: "gene_matrix option"
  v_pca_scores :: "(string \<times> real list) list option"
  v_burden_results :: "(string option \<times> linreg_row) list option"
  v_linreg_results :: "((string \<times> int) \<times> linreg_row) list option"
  v_xx :: "gene_matrix option"
  v_weighted_burden :: "(string option \<times> linreg_row) list option"
  v_skat_mt :: "matrix_table option"
  v_skat_results :: "skat_row list option"
  v_ht :: "results_table option"

definition fresh_kernel :: "files \<Rightarrow> notebook" where
  "fresh_kernel fs =
     \<lparr>files = fs, v_mt = None, v_sd = None, v_genes = None, v_phenos = None,
      v_burden_mt = None, v_pca_scores = None, v_burden_results = None,
      v_linreg_results = None, v_xx = None, v_weighted_burden = None,
      v_skat_mt = None, v_skat_results = None, v_ht = None\<rparr>"

definition and_then :: "error + 'a \<Rightarrow> ('a \<Rightarrow> error + 'b) \<Rightarrow> error + 'b" where
  "and_then m f = (case m of Inl e \<Rightarrow> Inl e | Inr x \<Rightarrow> f x)"

definition need :: "string \<Rightarrow> 'a option \<Rightarrow> error + 'a" where
  "need name v = (case v of None \<Rightarrow> Inl (NameError name) | Some x \<Rightarrow> Inr x)"

text \<open>Cells run in order; the first exception ends the run.\<close>

fun run_cells :: "(notebook \<Rightarrow> error + notebook) list \<Rightarrow> notebook \<Rightarrow> error + notebook" where
  "run_cells [] st = Inr st"
| "run_cells (c # cs) st = (case c st of Inl e \<Rightarrow> Inl e | Inr st' \<Rightarrow> run_cells cs st')"

subsection \<open>Loaders and table operations\<close>

definition read_matrix_table :: "files \<Rightarrow> string \<Rightarrow> error + matrix_table" where
  "read_matrix_table fs path =
     (case fs path of Some (MatrixTableFile m) \<Rightarrow> Inr m | _ \<Rightarrow> Inl (HailError path))"

definition read_table :: "files \<Rightarrow> string \<Rightarrow> error + table" where
  "read_table fs path =
     (case fs path of Some (TableFile t) \<Rightarrow> Inr t | _ \<Rightarrow> Inl (HailError path))"

definition import_table :: "files \<Rightarrow> string \<Rightarrow> error + table" where
  "import_table fs path =
     (case fs path of Some (DelimitedFile t) \<Rightarrow> Inr t | _ \<Rightarrow> Inl (HailError path))"

definition filter_rows ::
  "(variant \<Rightarrow> error + bool option) \<Rightarrow> bool \<Rightarrow> matrix_table \<Rightarrow> error + matrix_table" where
  "filter_rows p keep mt =
     and_then (filter_rows_list p keep (rows mt)) (\<lambda>rs. Inr (mt\<lparr>rows := rs\<rparr>))"

definition annotate_rows :: "(variant \<Rightarrow> error + variant) \<Rightarrow> matrix_table \<Rightarrow> error + matrix_table" where
  "annotate_rows f mt = and_then (annotate_list f (rows mt)) (\<lambda>rs. Inr (mt\<lparr>rows := rs\<rparr>))"

definition annotate_cols :: "(sample \<Rightarrow> error + sample) \<Rightarrow> matrix_table \<Rightarrow> error + matrix_table" where
  "annotate_cols f mt = and_then (annotate_list f (cols mt)) (\<lambda>cs. Inr (mt\<lparr>cols := cs\<rparr>))"

text \<open>\<open>pca = pca_scores[mt.s]\<close> and the covariates \<open>[1.0, pca.scores[0], pca.scores[1], pca.scores[2]]\<close>.\<close>

definition annotate_pca :: "(string \<times> real list) list \<Rightarrow> sample \<Rightarrow> error + sample" where
  "annotate_pca scores c = Inr (c\<lparr>pca := map_of scores (col_s c)\<rparr>)"

definition covariates :: "sample \<Rightarrow> error + real option list" where
  "covariates c =
     and_then (hl_index (pca c) 0) (\<lambda>s0.
     and_then (hl_index (pca c) 1) (\<lambda>s1.
     and_then (hl_index (pca c) 2) (\<lambda>s2.
     Inr [Some 1, s0, s1, s2])))"

text \<open>The \<open>x\<close> arguments: \<open>x = burden_mt.n_variants\<close> and \<open>x = mt.GT.n_alt_alleles()\<close>.\<close>

definition n_variants_x :: "gene_row \<Rightarrow> real option list" where
  "n_variants_x gr = map (\<lambda>n. Some (real_of_int n)) (n_variants gr)"

definition n_alt_alleles_x :: "variant \<Rightarrow> real option list" where
  "n_alt_alleles_x r = map (map_option (\<lambda>c. real_of_int (n_alt_alleles c))) (GT r)"

subsection \<open>Cells of the rare-variant notebook\<close>

text \<open>
  \<^verbatim>\<open>
  mt = hl.read_matrix_table('resources/hgdp-tgp-rare-variants.mt')

  # remove non-PASS variants
  mt = mt.filter_rows(hl.len(mt.filters) == 0)
  \<close>
\<close>

definition cell_read_mt :: "notebook \<Rightarrow> error + notebook" where
  "cell_read_mt st =
     and_then (read_matrix_table (files st) ''resources/hgdp-tgp-rare-variants.mt'') (\<lambda>mt.
     and_then (filter_rows pass_expr True mt) (\<lambda>mt.
     Inr (st\<lparr>v_mt := Some mt\<rparr>)))"

text \<open>
  \<^verbatim>\<open>
  mt = mt.filter_rows(
      hl.agg.call_stats(mt.GT, mt.alleles).AF[1] < 0.01
  )
  \<close>
\<close>

definition cell_rare :: "notebook \<Rightarrow> error + notebook" where
  "cell_rare st =
     and_then (need ''mt'' (v_mt st)) (\<lambda>mt.
     and_then (filter_rows rare_expr True mt) (\<lambda>mt.
     Inr (st\<lparr>v_mt := Some mt\<rparr>)))"

text \<open>
  \<^verbatim>\<open>
  mt = mt.filter_rows(
      hl.agg.all(mt.GT.is_hom_ref()),
      keep=False
  )
  \<close>
\<close>

definition cell_non_ref :: "notebook \<Rightarrow> error + notebook" where
  "cell_non_ref st =
     and_then (need ''mt'' (v_mt st)) (\<lambda>mt.
     and_then (filter_rows all_hom_ref_expr False mt) (\<lambda>mt.
     Inr (st\<lparr>v_mt := Some mt\<rparr>)))"

text \<open>\<^verbatim>\<open>genes = hl.read_table('resources/genes.ht')\<close>\<close>

definition cell_read_genes :: "notebook \<Rightarrow> error + notebook" where
  "cell_read_genes st =
     and_then (read_table (files st) ''resources/genes.ht'') (\<lambda>genes.
     Inr (st\<lparr>v_genes := Some genes\<rparr>))"

text \<open>\<^verbatim>\<open>mt = mt.annotate_rows(gene_name = genes[mt.locus].gene_name)\<close>\<close>

definition cell_gene_name :: "notebook \<Rightarrow> error + notebook" where
  "cell_gene_name st =
     and_then (need ''mt'' (v_mt st)) (\<lambda>mt.
     and_then (need ''genes'' (v_genes st)) (\<lambda>genes.
     and_then (genes_index genes) (\<lambda>gene_of.
     and_then (annotate_rows (annotate_gene_name gene_of) mt) (\<lambda>mt.
     Inr (st\<lparr>v_mt := Some mt\<rparr>)))))"

text \<open>
  \<^verbatim>\<open>
  phenos = hl.read_table('resources/rare-variant-phenotypes.ht')
  mt = mt.annotate_cols(
      pheno1 = phenos[mt.s].pheno1,
      pheno2 = phenos[mt.s].pheno2
  )
  \<close>
\<close>

definition cell_phenos :: "notebook \<Rightarrow> error + notebook" where
  "cell_phenos st =
     and_then (read_table (files st) ''resources/rare-variant-phenotypes.ht'') (\<lambda>phenos.
     and_then (need ''mt'' (v_mt st)) (\<lambda>mt.
     and_then (phenos_index phenos) (\<lambda>pheno_of.
     and_then (annotate_cols (annotate_phenos pheno_of) mt) (\<lambda>mt.
     Inr (st\<lparr>v_phenos := Some phenos, v_mt := Some mt\<rparr>)))))"

text \<open>The cell that builds \<open>burden_mt\<close> (quoted with \<open>group_aggregate\<close> above).\<close>

definition cell_burden_mt :: "notebook \<Rightarrow> error + notebook" where
  "cell_burden_mt st =
     and_then (need ''mt'' (v_mt st)) (\<lambda>mt.
     and_then (burden_mt_of mt) (\<lambda>burden_mt.
     Inr (st\<lparr>v_burden_mt := Some burden_mt\<rparr>)))"

text \<open>\<^verbatim>\<open>_, pca_scores, _ = hl.hwe_normalized_pca(mt.GT)\<close>\<close>

definition cell_pca :: "hail \<Rightarrow> notebook \<Rightarrow> error + notebook" where
  "cell_pca lib st =
     and_then (need ''mt'' (v_mt st)) (\<lambda>mt.
     and_then (hwe_normalized_pca lib (map GT (rows mt)) (map col_s (cols mt))) (\<lambda>pca_scores.
     Inr (st\<lparr>v_pca_scores := Some pca_scores\<rparr>)))"

text \<open>
  \<^verbatim>\<open>
  burden_mt = burden_mt.annotate_cols(pca = pca_scores[burden_mt.s])

  burden_results = hl.linear_regression_rows(
      y=burden_mt.pheno1,
      x=burden_mt.n_variants,
      covariates=[1.0,
                  burden_mt.pca.scores[0],
                  burden_mt.pca.scores[1],
                  burden_mt.pca.scores[2]])
  \<close>
\<close>

definition regress_genes ::
  "hail \<Rightarrow> gene_matrix \<Rightarrow> error + (string option \<times> linreg_row) list" where
  "regress_genes lib gm =
     and_then (annotate_list covariates (gcols gm)) (\<lambda>covs.
     and_then (linear_regression_rows lib (map pheno1 (gcols gm)) (map n_variants_x (grows gm)) covs)
       (\<lambda>res. Inr (zip (map gene (grows gm)) res)))"

definition cell_burden_results :: "hail \<Rightarrow> notebook \<Rightarrow> error + notebook" where
  "cell_burden_results lib st =
     and_then (need ''burden_mt'' (v_burden_mt st)) (\<lambda>burden_mt.
     and_then (need ''pca_scores'' (v_pca_scores st)) (\<lambda>pca_scores.
     and_then (annotate_list (annotate_pca pca_scores) (gcols burden_mt)) (\<lambda>cs.
     and_then (regress_genes lib (burden_mt\<lparr>gcols := cs\<rparr>)) (\<lambda>burden_results.
     Inr (st\<lparr>v_burden_mt := Some (burden_mt\<lparr>gcols := cs\<rparr>),
            v_burden_results := Some burden_results\<rparr>)))))"

text \<open>
  \<^verbatim>\<open>
  mt = mt.annotate_cols(pca = pca_scores[mt.s])

  linreg_results = hl.linear_regression_rows(
      y=mt.pheno1,
      x=mt.GT.n_alt_alleles(),
      covariates=[1.0, mt.pca.scores[0], mt.pca.scores[1], mt.pca.scores[2]])
  ht = linreg_results
  \<close>
  and the same cell with \<open>y=mt.pheno2\<close> at the end of the notebook (the two
  lines that follow in the cell plot and show the table).
\<close>

definition cell_linreg :: "(sample \<Rightarrow> real option) \<Rightarrow> hail \<Rightarrow> notebook \<Rightarrow> error + notebook" where
  "cell_linreg pheno lib st =
     and_then (need ''mt'' (v_mt st)) (\<lambda>mt.
     and_then (need ''pca_scores'' (v_pca_scores st)) (\<lambda>pca_scores.
     and_then (annotate_cols (annotate_pca pca_scores) mt) (\<lambda>mt.
     and_then (annotate_list covariates (cols mt)) (\<lambda>covs.
     and_then (linear_regression_rows lib (map pheno (cols mt)) (map n_alt_alleles_x (rows mt)) covs)
       (\<lambda>res.
     Inr (st\<lparr>v_mt := Some mt,
            v_linreg_results := Some (zip (map locus (rows mt)) res),
            v_ht := Some (VariantResults (zip (map locus (rows mt)) res))\<rparr>))))))"

text \<open>
  \<^verbatim>\<open>
  mt = mt.annotate_rows(weight1 = ..., weight2 = mt.cadd.phred)

  mt = mt.annotate_cols(pca = pca_scores[mt.s])

  xx = mt.group_rows_by(mt.gene_name).aggregate(
      n_variants = hl.agg.count_where(mt.weight2 * mt.GT.n_alt_alleles() > 0)
  )
  xx = xx.filter_rows(hl.agg.sum(xx.n_variants) > 0)

  weighted_burden = hl.linear_regression_rows(
      y=xx.pheno1,
      x=xx.n_variants,
      covariates=[1.0, xx.pca.scores[0], xx.pca.scores[1], xx.pca.scores[2]])
  ht = weighted_burden
  \<close>
\<close>

definition cell_weighted_burden :: "hail \<Rightarrow> notebook \<Rightarrow> error + notebook" where
  "cell_weighted_burden lib st =
     and_then (need ''mt'' (v_mt st)) (\<lambda>mt.
     and_then (annotate_rows (\<lambda>r. Inr (annotate_weights r)) mt) (\<lambda>mt.
     and_then (need ''pca_scores'' (v_pca_scores st)) (\<lambda>pca_scores.
     and_then (annotate_cols (annotate_pca pca_scores) mt) (\<lambda>mt.
     and_then (weighted_xx_of mt) (\<lambda>xx.
     and_then (regress_genes lib xx) (\<lambda>weighted_burden.
     Inr (st\<lparr>v_mt := Some mt, v_xx := Some xx,
            v_weighted_burden := Some weighted_burden,
            v_ht := Some (GeneResults weighted_burden)\<rparr>)))))))"

text \<open>
  \<^verbatim>\<open>
  skat_mt = mt
  skat_mt = skat_mt.annotate_cols(
      pca = pca_scores[skat_mt.s]
  )
  skat_mt = hl.variant_qc(skat_mt)
  skat_mt = skat_mt.annotate_rows(
      weight = hl.dbeta(skat_mt.variant_qc.AF[1], 1, 25)
  )

  skat_results = hl.skat(
      skat_mt.gene_name,
      skat_mt.weight,
      y = skat_mt.pheno2,
      x = skat_mt.GT.n_alt_alleles(),
      covariates = [1.0,
                    skat_mt.pca.scores[0],
                    skat_mt.pca.scores[1],
                    skat_mt.pca.scores[2]]
  )
  \<close>
\<close>

definition skat_mt_of :: "(string \<times> real list) list \<Rightarrow> matrix_table \<Rightarrow> error + matrix_table" where
  "skat_mt_of pca_scores mt =
     and_then (annotate_cols (annotate_pca pca_scores) mt) (\<lambda>skat_mt.
     and_then (annotate_rows (\<lambda>r. Inr (variant_qc r)) skat_mt) (\<lambda>skat_mt.
     annotate_rows annotate_skat_weight skat_mt))"

definition call_skat :: "hail \<Rightarrow> matrix_table \<Rightarrow> error + skat_row list" where
  "call_skat lib skat_mt =
     and_then (annotate_list covariates (cols skat_mt)) (\<lambda>covs.
     skat lib (map gene_name (rows skat_mt)) (map weight (rows skat_mt))
       (map pheno2 (cols skat_mt)) (map n_alt_alleles_x (rows skat_mt)) covs)"

definition cell_skat :: "hail \<Rightarrow> notebook \<Rightarrow> error + notebook" where
  "cell_skat lib st =
     and_then (need ''mt'' (v_mt st)) (\<lambda>mt.
     and_then (need ''pca_scores'' (v_pca_scores st)) (\<lambda>pca_scores.
     and_then (skat_mt_of pca_scores mt) (\<lambda>skat_mt.
     and_then (call_skat lib skat_mt) (\<lambda>skat_results.
     Inr (st\<lparr>v_skat_mt := Some skat_mt, v_skat_results := Some skat_results\<rparr>)))))"

text \<open>
  \<^verbatim>\<open>
  ht = skat_results
  ht = ht.annotate(
      p_value = hl.if_else(ht.fault == 0, ht.p_value, 1)
  )
  \<close>
\<close>

definition cell_fault :: "notebook \<Rightarrow> error + notebook" where
  "cell_fault st =
     and_then (need ''skat_results'' (v_skat_results st)) (\<lambda>ht.
     Inr (st\<lparr>v_ht := Some (SkatResults (map annotate_fault ht))\<rparr>))"

text \<open>
  The cells of the rare-variant notebook that load, transform or analyse the
  data, top to bottom.  Left out are the cells that only explore, display or
  plot: they call \<open>show\<close>, \<open>describe\<close>, \<open>summarize\<close> or a plotting function, or
  bind \<open>xx\<close> to \<open>burden_mt\<close> (the exploration cells) or \<open>ht\<close> to \<open>burden_results\<close>
  (the cell that plots them) and show what they bound; the cells listed here
  bind \<open>xx\<close> and \<open>ht\<close> anew before they or any later cell read them.
\<close>

definition rare_variant_cells :: "hail \<Rightarrow> (notebook \<Rightarrow> error + notebook) list" where
  "rare_variant_cells lib =
     [cell_read_mt, cell_rare, cell_non_ref, cell_read_genes, cell_gene_name, cell_phenos,
      cell_burden_mt, cell_pca lib, cell_burden_results lib, cell_linreg pheno1 lib,
      cell_weighted_burden lib, cell_skat lib, cell_fault, cell_linreg pheno2 lib]"

subsection \<open>The loading cell of the relatedness notebook\<close>

text \<open>
  \<^verbatim>\<open>
  mt = hl.read_matrix_table('resources/hgdp.mt')
  sd = hl.import_table('resources/HGDP_sample_data.tsv',
                       key='sample_id',
                       impute=True)
  mt = mt.annotate_cols(sample_idx = hl.int(hl.scan.count()), sample_data = sd[mt.s])
  \<close>
  \<open>hl.scan.count()\<close> is the number of columns before the current one.
\<close>

definition sd_index :: "table \<Rightarrow> error + (string \<Rightarrow> (string \<times> string) list option)" where
  "sd_index t =
     (case t of
        SampleTable rs \<Rightarrow> Inr (map_of rs)
      | _ \<Rightarrow> Inl (HailError ''key type mismatch''))"

definition annotate_sample_data ::
  "(string \<Rightarrow> (string \<times> string) list option) \<Rightarrow> nat \<times> sample \<Rightarrow> error + sample" where
  "annotate_sample_data data_of ic =
     Inr ((snd ic)\<lparr>sample_idx := Some (int (fst ic)),
                   sample_data := data_of (col_s (snd ic))\<rparr>)"

definition cell_read_hgdp :: "notebook \<Rightarrow> error + notebook" where
  "cell_read_hgdp st =
     and_then (read_matrix_table (files st) ''resources/hgdp.mt'') (\<lambda>mt.
     and_then (import_table (files st) ''resources/HGDP_sample_data.tsv'') (\<lambda>sd.
     and_then (sd_index sd) (\<lambda>data_of.
     and_then (annotate_list (annotate_sample_data data_of) (enumerate 0 (cols mt))) (\<lambda>cs.
     Inr (st\<lparr>v_mt := Some (mt\<lparr>cols := cs\<rparr>), v_sd := Some sd\<rparr>)))))"


section \<open>Predicates of the claims\<close>

text \<open>
  Sample \<open>j\<close> carries variant \<open>r\<close> when its call has at least one alternate
  allele; \<open>carried_variants\<close> counts the variants of gene \<open>g\<close> that sample \<open>j\<close>
  carries, \<open>two_alt_variants\<close> those where its call has two alternate alleles.
\<close>

definition carries :: "variant \<Rightarrow> nat \<Rightarrow> bool" where
  "carries r j = (case entry r j of None \<Rightarrow> False | Some c \<Rightarrow> 0 < n_alt_alleles c)"

definition has_two_alt :: "variant \<Rightarrow> nat \<Rightarrow> bool" where
  "has_two_alt r j = (case entry r j of None \<Rightarrow> False | Some c \<Rightarrow> n_alt_alleles c = 2)"

definition carried_variants :: "variant list \<Rightarrow> string \<Rightarrow> nat \<Rightarrow> int" where
  "carried_variants rs g j =
     int (length (filter (\<lambda>r. carries r j) (filter (\<lambda>r. gene_name r = Some g) rs)))"

definition two_alt_variants :: "variant list \<Rightarrow> string \<Rightarrow> nat \<Rightarrow> int" where
  "two_alt_variants rs g j =
     int (length (filter (\<lambda>r. has_two_alt r j) (filter (\<lambda>r. gene_name r = Some g) rs)))"

text \<open>
  The quality-control invariant on a kernel state: \<open>mt\<close> is bound, every row
  of \<open>mt\<close> and of \<open>skat_mt\<close> satisfies \<open>qc_ok\<close>, and the grouped tables
  \<open>burden_mt\<close> and \<open>xx\<close>, once bound, have the rows that their aggregation
  computes from the matrix table \<open>mt\<close> is bound to in the same state, and one
  column for each column of it (\<open>aggregated_from\<close>).
\<close>

definition rows_ok :: "matrix_table option \<Rightarrow> bool" where
  "rows_ok v = (case v of None \<Rightarrow> True | Some mt \<Rightarrow> list_all qc_ok (rows mt))"

definition aggregated_from ::
  "(matrix_table \<Rightarrow> error + gene_matrix) \<Rightarrow> matrix_table option \<Rightarrow> gene_matrix option \<Rightarrow> bool"
  where
  "aggregated_from f vmt v =
     (case v of None \<Rightarrow> True
      | Some gm \<Rightarrow>
          (case vmt of None \<Rightarrow> False
           | Some mt \<Rightarrow>
               (case f mt of Inl e \<Rightarrow> False
                | Inr gm0 \<Rightarrow> grows gm = grows gm0 \<and> length (gcols gm) = length (cols mt))))"

definition qc_inv :: "notebook \<Rightarrow> bool" where
  "qc_inv st =
     (v_mt st \<noteq> None \<and> rows_ok (v_mt st) \<and> rows_ok (v_skat_mt st)
      \<and> aggregated_from burden_mt_of (v_mt st) (v_burden_mt st)
      \<and> aggregated_from weighted_xx_of (v_mt st) (v_xx st))"

text \<open>
  The cells after the gene names are annotated; before them no grouped table
  is bound.
\<close>

definition ungrouped :: "notebook \<Rightarrow> bool" where
  "ungrouped st = (v_burden_mt st = None \<and> v_xx st = None)"

definition later_cells :: "hail \<Rightarrow> (notebook \<Rightarrow> error + notebook) list" where
  "later_cells lib = drop 5 (rare_variant_cells lib)"

text \<open>
  The invariant after the cell of the burden test: \<open>burden_results\<close> is what
  the regression returned on the table \<open>burden_mt\<close> is bound to.
\<close>

definition regression_inv :: "hail \<Rightarrow> notebook \<Rightarrow> bool" where
  "regression_inv lib st =
     (case v_burden_mt st of None \<Rightarrow> False
      | Some bm \<Rightarrow> (case v_burden_results st of None \<Rightarrow> False
          | Some res \<Rightarrow> regress_genes lib bm = Inr res))"

text \<open>
  The invariant after the SKAT cell: every row of \<open>skat_mt\<close> passed quality
  control and carries the Beta(1, 25) density of its alternate allele
  frequency as weight, and \<open>skat_results\<close> is what \<open>hl.skat\<close> returned on
  \<open>skat_mt\<close>.
\<close>

definition skat_row_ok :: "variant \<Rightarrow> bool" where
  "skat_row_ok r =
     (qc_ok r \<and> weight r = map_option (\<lambda>af. dbeta af 1 25) (alt_allele_frequency r))"

definition skat_inv :: "hail \<Rightarrow> notebook \<Rightarrow> bool" where
  "skat_inv lib st =
     (case v_skat_mt st of None \<Rightarrow> False
      | Some sm \<Rightarrow> list_all skat_row_ok (rows sm)
          \<and> (case v_skat_results st of None \<Rightarrow> False
              | Some res \<Rightarrow> call_skat lib sm = Inr res))"

text \<open>
  The paths each notebook reads, and what it means that a cell reads nothing
  but the files at given paths: replacing the files by others that agree at
  these paths changes nothing but the \<open>files\<close> component of the outcome.
\<close>

definition rare_variant_inputs :: "string list" where
  "rare_variant_inputs =
     [''resources/hgdp-tgp-rare-variants.mt'', ''resources/genes.ht'',
      ''resources/rare-variant-phenotypes.ht'']"

definition relatedness_inputs :: "string list" where
  "relatedness_inputs = [''resources/hgdp.mt'', ''resources/HGDP_sample_data.tsv'']"

definition with_files :: "files \<Rightarrow> error + notebook \<Rightarrow> error + notebook" where
  "with_files fs r = (case r of Inl e \<Rightarrow> Inl e | Inr st \<Rightarrow> Inr (st\<lparr>files := fs\<rparr>))"

definition same_inputs :: "string list \<Rightarrow> files \<Rightarrow> files \<Rightarrow> bool" where
  "same_inputs paths fs fs' = list_all (\<lambda>p. fs p = fs' p) paths"

definition reads_only :: "string list \<Rightarrow> (notebook \<Rightarrow> error + notebook) \<Rightarrow> bool" where
  "reads_only paths c =
     (\<forall>st fs'. same_inputs paths (files st) fs' \<longrightarrow> c (st\<lparr>files := fs'\<rparr>) = with_files fs' (c st))"


section \<open>The code cells as text\<close>











section \<open>A worked example\<close>

text \<open>
  A small data set on which the notebook runs to the end: 101 samples and four
  variants, of which one fails the PASS filter, one is common, one has no
  non-reference call, and one (a single homozygous alternate carrier) passes
  quality control; one gene; a library whose statistical methods return fixed
  results, with a SKAT row whose fault code is 1.  The states \<open>demo_st1\<close> ...
  \<open>demo_st14\<close> are the kernel states after each cell.
\<close>

definition demo_sample :: "nat \<Rightarrow> sample" where
  "demo_sample i =
     \<lparr>col_s = ''HGDP'' @ replicate i (CHR ''0''), sample_idx = None, sample_data = None,
      pheno1 = None, pheno2 = None, pca = None\<rparr>"

definition demo_cols :: "sample list" where
  "demo_cols = map demo_sample [0..<101]"

definition demo_variant :: "int \<Rightarrow> string fset \<Rightarrow> call option list \<Rightarrow> variant" where
  "demo_variant pos fl gts =
     \<lparr>locus = (''chr1'', pos), alleles = [''A'', ''T''], filters = Some fl,
      most_severe_consequence = Some ''missense_variant'', cadd_phred = Some 20,
      gene_name = None, weight1 = None, weight2 = None, variant_qc_AF = None, weight = None,
      GT = gts\<rparr>"

definition demo_calls :: "call option list" where
  "demo_calls = Some (Call 1 1) # replicate 100 (Some (Call 0 0))"

definition demo_common_calls :: "call option list" where
  "demo_common_calls = replicate 101 (Some (Call 0 1))"

definition demo_ref_calls :: "call option list" where
  "demo_ref_calls = replicate 101 (Some (Call 0 0))"

definition demo_mt :: matrix_table where
  "demo_mt =
     \<lparr>cols = demo_cols,
      rows = [demo_variant 100 {||} demo_calls,
              demo_variant 200 {|''VQSR''|} demo_calls,
              demo_variant 300 {||} demo_common_calls,
              demo_variant 400 {||} demo_ref_calls]\<rparr>"

definition demo_genes :: table where
  "demo_genes =
     GeneTable [\<lparr>contig = ''chr1'', start_pos = 50, end_pos = 150, includes_start = True,
                 includes_end = False, interval_gene_name = Some ''G''\<rparr>]"

definition demo_pheno_rows :: "(string \<times> real option \<times> real option) list" where
  "demo_pheno_rows = [(''HGDP'', Some 1, Some 2)]"

definition demo_phenos :: table where
  "demo_phenos = PhenoTable demo_pheno_rows"

definition demo_sd_rows :: "(string \<times> (string \<times> string) list) list" where
  "demo_sd_rows = [(''HGDP'', [(''continental_pop'', ''EUR'')])]"

definition demo_sd :: table where
  "demo_sd = SampleTable demo_sd_rows"

definition demo_files :: files where
  "demo_files =
     map_of [(''resources/hgdp-tgp-rare-variants.mt'', MatrixTableFile demo_mt),
             (''resources/genes.ht'', TableFile demo_genes),
             (''resources/rare-variant-phenotypes.ht'', TableFile demo_phenos),
             (''resources/hgdp.mt'', MatrixTableFile demo_mt),
             (''resources/HGDP_sample_data.tsv'', DelimitedFile demo_sd)]"

definition demo_skat_row :: skat_row where
  "demo_skat_row =
     \<lparr>skat_id = Some ''G'', skat_size = 1, q_stat = Some 1, p_value = Some (1/1000),
      fault = Some 1\<rparr>"

definition demo_lib :: hail where
  "demo_lib =
     \<lparr>hwe_normalized_pca = (\<lambda>gts names. Inr (map (\<lambda>n. (n, [1/10, 1/5, 3/10])) names)),
      linear_regression_rows =
        (\<lambda>y x covs. Inr (map (\<lambda>_. \<lparr>lr_beta = Some 0, lr_p_value = Some (1/2)\<rparr>) x)),
      skat = (\<lambda>keys ws y x covs. Inr [demo_skat_row])\<rparr>"

definition demo_scores :: "real list" where
  "demo_scores = [1/10, 1/5, 3/10]"

definition demo_sample6 :: "nat \<Rightarrow> sample" where
  "demo_sample6 i =
     (demo_sample i)\<lparr>pheno1 := (if i = 0 then Some 1 else None),
                     pheno2 := (if i = 0 then Some 2 else None)\<rparr>"

definition demo_cols6 :: "sample list" where
  "demo_cols6 = map demo_sample6 [0..<101]"

definition demo_cols10 :: "sample list" where
  "demo_cols10 = map (\<lambda>c. c\<lparr>pca := Some demo_scores\<rparr>) demo_cols6"

definition demo_pca_scores :: "(string \<times> real list) list" where
  "demo_pca_scores = map (\<lambda>n. (n, demo_scores)) (map col_s demo_cols6)"

definition demo_lr :: linreg_row where
  "demo_lr = \<lparr>lr_beta = Some 0, lr_p_value = Some (1/2)\<rparr>"

definition demo_row5 :: variant where
  "demo_row5 = (demo_variant 100 {||} demo_calls)\<lparr>gene_name := Some ''G''\<rparr>"

definition demo_row11 :: variant where
  "demo_row11 = demo_row5\<lparr>weight1 := Some 5, weight2 := Some 20\<rparr>"

definition demo_row12 :: variant where
  "demo_row12 =
     demo_row11\<lparr>variant_qc_AF := Some [100/101, 1/101], weight := Some (dbeta (1/101) 1 25)\<rparr>"

definition demo_n_variants :: "int list" where
  "demo_n_variants = 1 # replicate 100 0"

definition demo_st1 :: notebook where
  "demo_st1 = (fresh_kernel demo_files)\<lparr>v_mt := Some
     \<lparr>cols = demo_cols,
      rows = [demo_variant 100 {||} demo_calls, demo_variant 300 {||} demo_common_calls,
              demo_variant 400 {||} demo_ref_calls]\<rparr>\<rparr>"

definition demo_st2 :: notebook where
  "demo_st2 = demo_st1\<lparr>v_mt := Some
     \<lparr>cols = demo_cols,
      rows = [demo_variant 100 {||} demo_calls, demo_variant 400 {||} demo_ref_calls]\<rparr>\<rparr>"

definition demo_st3 :: notebook where
  "demo_st3 = demo_st2\<lparr>v_mt := Some \<lparr>cols = demo_cols, rows = [demo_variant 100 {||} demo_calls]\<rparr>\<rparr>"

definition demo_st4 :: notebook where
  "demo_st4 = demo_st3\<lparr>v_genes := Some demo_genes\<rparr>"

definition demo_st5 :: notebook where
  "demo_st5 = demo_st4\<lparr>v_mt := Some \<lparr>cols = demo_cols, rows = [demo_row5]\<rparr>\<rparr>"

definition demo_st6 :: notebook where
  "demo_st6 = demo_st5\<lparr>v_phenos := Some demo_phenos,
                        v_mt := Some \<lparr>cols = demo_cols6, rows = [demo_row5]\<rparr>\<rparr>"

definition demo_st7 :: notebook where
  "demo_st7 = demo_st6\<lparr>v_burden_mt := Some
     \<lparr>gcols = demo_cols6, grows = [\<lparr>gene = Some ''G'', n_variants = demo_n_variants\<rparr>]\<rparr>\<rparr>"

definition demo_st8 :: notebook where
  "demo_st8 = demo_st7\<lparr>v_pca_scores := Some demo_pca_scores\<rparr>"

definition demo_st9 :: notebook where
  "demo_st9 = demo_st8\<lparr>v_burden_mt := Some
       \<lparr>gcols = demo_cols10, grows = [\<lparr>gene = Some ''G'', n_variants = demo_n_variants\<rparr>]\<rparr>,
     v_burden_results := Some [(Some ''G'', demo_lr)]\<rparr>"

definition demo_st10 :: notebook where
  "demo_st10 = demo_st9\<lparr>v_mt := Some \<lparr>cols = demo_cols10, rows = [demo_row5]\<rparr>,
                          v_linreg_results := Some [((''chr1'', 100), demo_lr)],
                          v_ht := Some (VariantResults [((''chr1'', 100), demo_lr)])\<rparr>"

definition demo_st11 :: notebook where
  "demo_st11 = demo_st10\<lparr>v_mt := Some \<lparr>cols = demo_cols10, rows = [demo_row11]\<rparr>,
     v_xx := Some
       \<lparr>gcols = demo_cols10, grows = [\<lparr>gene = Some ''G'', n_variants = demo_n_variants\<rparr>]\<rparr>,
     v_weighted_burden := Some [(Some ''G'', demo_lr)],
     v_ht := Some (GeneResults [(Some ''G'', demo_lr)])\<rparr>"

definition demo_st12 :: notebook where
  "demo_st12 = demo_st11\<lparr>v_skat_mt := Some \<lparr>cols = demo_cols10, rows = [demo_row12]\<rparr>,
                           v_skat_results := Some [demo_skat_row]\<rparr>"

definition demo_st13 :: notebook where
  "demo_st13 = demo_st12\<lparr>v_ht := Some (SkatResults [demo_skat_row\<lparr>p_value := Some 1\<rparr>])\<rparr>"

definition demo_st14 :: notebook where
  "demo_st14 = demo_st13\<lparr>v_ht := Some (VariantResults [((''chr1'', 100), demo_lr)])\<rparr>"

definition demo_covs :: "real option list list" where
  "demo_covs = map (\<lambda>c. [Some 1, Some (1/10), Some (1/5), Some (3/10)]) demo_cols10"

definition demo_mt6 :: matrix_table where
  "demo_mt6 = \<lparr>cols = demo_cols6, rows = [demo_row5]\<rparr>"

definition demo_burden_mt9 :: gene_matrix where
  "demo_burden_mt9 =
     \<lparr>gcols = demo_cols10, grows = [\<lparr>gene = Some ''G'', n_variants = demo_n_variants\<rparr>]\<rparr>"

definition demo_mt11 :: matrix_table where
  "demo_mt11 = \<lparr>cols = demo_cols10, rows = [demo_row11]\<rparr>"

definition demo_xx :: gene_matrix where
  "demo_xx =
     \<lparr>gcols = demo_cols10, grows = [\<lparr>gene = Some ''G'', n_variants = demo_n_variants\<rparr>]\<rparr>"

definition demo_skat_mt :: matrix_table where
  "demo_skat_mt = \<lparr>cols = demo_cols10, rows = [demo_row12]\<rparr>"



definition demo_more_files :: files where
  "demo_more_files =
     map_of [(''resources/other.ht'', TableFile demo_genes),
             (''resources/hgdp-tgp-rare-variants.mt'', MatrixTableFile demo_mt),
             (''resources/genes.ht'', TableFile demo_genes),
             (''resources/rare-variant-phenotypes.ht'', TableFile demo_phenos),
             (''resources/hgdp.mt'', MatrixTableFile demo_mt),
             (''resources/HGDP_sample_data.tsv'', DelimitedFile demo_sd)]"

definition demo_hgdp_cols :: "sample list" where
  "demo_hgdp_cols =
     map (\<lambda>i. (demo_sample i)
                \<lparr>sample_idx := Some (int i),
                  sample_data := (if i = 0 then Some [(''continental_pop'', ''EUR'')] else None)\<rparr>)
         [0..<101]"

definition demo_hgdp :: notebook where
  "demo_hgdp =
     (fresh_kernel demo_files)\<lparr>v_mt := Some (demo_mt\<lparr>cols := demo_hgdp_cols\<rparr>),
                               v_sd := Some demo_sd\<rparr>"

definition demo_gene_row :: gene_row where
  "demo_gene_row = \<lparr>gene = Some ''G'', n_variants = demo_n_variants\<rparr>"


definition demo_rel :: relatedness where
  "demo_rel = map_of [(5, map_of [(2, 1/4)])]"


section \<open>Properties of \<open>get_rel\<close>\<close>

lemma get_rel_case_self: "get_rel_case rel (Some s) (Some s) = Some (1/2)"
  by (simp add: get_rel_case_def hl_eq_def hl_if_else_def)

lemma get_rel_case_gt:
  "s2 < s1 \<Longrightarrow> get_rel_case rel (Some s1) (Some s2) = Some (rel_entry rel s1 s2)"
  by (simp add: get_rel_case_def hl_eq_def hl_gt_def hl_if_else_def hl_coalesce_def
      hl_get_def rel_entry_def split: option.splits)

lemma get_rel_case_lt:
  "s1 < s2 \<Longrightarrow> get_rel_case rel (Some s1) (Some s2) = Some (rel_entry rel s2 s1)"
  by (simp add: get_rel_case_def hl_eq_def hl_gt_def hl_if_else_def hl_coalesce_def
      hl_get_def rel_entry_def split: option.splits)

text \<open>
  Claim C3 as stated (\<open>get_rel(s, s)\<close> returns exactly 0.5) fails: with the
  jitter draw \<open>0.01\<close> the self pair of sample 7 gets \<open>0.51\<close>.
\<close>

theorem get_rel_self_not_half:
  "get_rel (map_of []) (Some 7) (Some 7) (1/100) \<noteq> Some (1/2)"
  by (simp add: get_rel_def get_rel_case_self hl_add_def)

text \<open>
  Claim C3, amended: for every sample index \<open>s\<close>, \<open>get_rel(s, s)\<close> is 0.5 plus
  the jitter drawn by \<open>hl.rand_norm(0, 0.005)\<close>.
\<close>

theorem get_rel_self:
  "get_rel rel (Some s) (Some s) jitter = Some (1/2 + jitter)"
  by (simp add: get_rel_def get_rel_case_self hl_add_def)

text \<open>
  Claim C10: the \<open>hl.case()\<close> part of \<open>get_rel\<close> (the value before the jitter
  is added) is, for distinct sample indices \<open>s1\<close> and \<open>s2\<close>, the relatedness
  graph entry \<open>rel[max(s1,s2)][min(s1,s2)]\<close> with default 0.0, and swapping the
  two arguments yields the same value.
\<close>

theorem get_rel_case_symmetric:
  assumes "s1 \<noteq> s2"
  shows "get_rel_case rel (Some s1) (Some s2) = Some (rel_entry rel (max s1 s2) (min s1 s2))
         \<and> get_rel_case rel (Some s2) (Some s1) = get_rel_case rel (Some s1) (Some s2)"
proof (cases "s1 < s2")
  case True
  then show ?thesis
    by (simp add: get_rel_case_lt get_rel_case_gt max_def min_def)
next
  case False
  with assms have "s2 < s1" by simp
  then show ?thesis
    by (simp add: get_rel_case_lt get_rel_case_gt max_def min_def)
qed

theorem get_rel_case_symmetric_witness:
  "(5::int) \<noteq> 2
   \<and> get_rel_case (map_of [(5, map_of [(2, 1/4)])]) (Some 5) (Some 2) = Some (1/4)
   \<and> get_rel_case (map_of [(5, map_of [(2, 1/4)])]) (Some 2) (Some 5) = Some (1/4)"
  using get_rel_case_symmetric [of 5 2 "map_of [(5, map_of [(2, 1/4)])]"]
  by (simp add: rel_entry_def)


section \<open>Quality control of the rare-variant pipeline\<close>


lemma filter_rows_list_eq:
  "filter_rows_list p keep rs = Inr rs' \<Longrightarrow> rs' = filter (\<lambda>r. p r = Inr (Some keep)) rs"
proof (induction rs arbitrary: rs')
  case Nil
  then show ?case by simp
next
  case (Cons r rs)
  then show ?case
    by (auto split: sum.splits if_splits)
qed

lemma pass_expr_iff: "pass_expr r = Inr (Some True) \<longleftrightarrow> filters r = Some {||}"
  by (cases "filters r") (auto simp: pass_expr_def hl_eq_def)

lemma called_mem: "c \<in> set (called gts) \<longleftrightarrow> Some c \<in> set gts"
  by (force simp: called_def List.map_filter_def)

lemma count_where_zero: "count_where bs = 0 \<longleftrightarrow> Some True \<notin> set bs"
  by (auto simp: count_where_def filter_empty_conv)

lemma some_negated_iff:
  "Some True \<in> set (map (map_option Not) (map (map_option P) gs))
   \<longleftrightarrow> (\<exists>c. Some c \<in> set gs \<and> \<not> P c)"
proof (induction gs)
  case Nil
  then show ?case by simp
next
  case (Cons g gs)
  then show ?case by (cases g) auto
qed

lemma all_hom_ref_expr_iff:
  "all_hom_ref_expr r = Inr (Some False) \<longleftrightarrow> (\<exists>c \<in> set (called (GT r)). \<not> is_hom_ref c)"
  by (simp add: all_hom_ref_expr_def agg_all_def count_where_zero some_negated_iff called_mem
      Bex_def del: set_map map_map)

lemma rare_expr_true:
  assumes "rare_expr r = Inr (Some True)"
  shows "\<exists>af. alt_allele_frequency r = Some af \<and> af < 1/100" and "1 < length (alleles r)"
  using assms
  by (auto simp: rare_expr_def hl_index_def call_stats_AF_def Let_def AN_def hl_lt_def
      alt_allele_frequency_def split: sum.splits option.splits if_splits)


lemma and_then_Inr_iff:
  "and_then m f = Inr y \<longleftrightarrow> (\<exists>x. m = Inr x \<and> f x = Inr y)"
  by (cases m) (auto simp: and_then_def)

lemma need_Inr_iff: "need n v = Inr x \<longleftrightarrow> v = Some x"
  by (cases v) (auto simp: need_def)

lemma annotate_list_all:
  assumes "annotate_list f rs = Inr rs'" "list_all P rs" "\<And>r r'. f r = Inr r' \<Longrightarrow> P r \<Longrightarrow> Q r'"
  shows "list_all Q rs'"
  using assms
proof (induction rs arbitrary: rs')
  case Nil
  then show ?case by simp
next
  case (Cons r rs)
  then show ?case by (auto split: sum.splits)
qed

lemma qc_ok_cong: "filters r' = filters r \<Longrightarrow> GT r' = GT r \<Longrightarrow> qc_ok r' = qc_ok r"
  by (simp add: qc_ok_def alt_allele_frequency_def)

lemma qc_ok_from_filters:
  assumes "pass_expr r = Inr (Some True)" "rare_expr r = Inr (Some True)"
    "all_hom_ref_expr r = Inr (Some False)"
  shows "qc_ok r"
proof -
  from assms(1) have "filters r = Some {||}" by (simp add: pass_expr_iff)
  moreover from rare_expr_true(1)[OF assms(2)]
  have "case alt_allele_frequency r of None \<Rightarrow> False | Some af \<Rightarrow> af < 1/100" by auto
  moreover from assms(3) have "\<exists>c \<in> set (called (GT r)). \<not> is_hom_ref c"
    by (simp add: all_hom_ref_expr_iff)
  ultimately show ?thesis by (simp add: qc_ok_def)
qed

lemma filter_rows_Inr:
  "filter_rows p keep mt = Inr mt' \<Longrightarrow>
   mt' = mt\<lparr>rows := filter (\<lambda>r. p r = Inr (Some keep)) (rows mt)\<rparr>"
  by (auto simp: filter_rows_def and_then_Inr_iff dest: filter_rows_list_eq)

lemma run_cells_append:
  "run_cells (cs @ ds) st = (case run_cells cs st of Inl e \<Rightarrow> Inl e | Inr st' \<Rightarrow> run_cells ds st')"
  by (induction cs arbitrary: st) (auto split: sum.splits)

lemma run_cells_preserves:
  assumes "run_cells cs st = Inr st'" "P st"
    "\<And>c s s'. c \<in> set cs \<Longrightarrow> c s = Inr s' \<Longrightarrow> P s \<Longrightarrow> P s'"
  shows "P st'"
  using assms
proof (induction cs arbitrary: st)
  case Nil
  then show ?case by simp
next
  case (Cons c cs)
  from Cons.prems(1) obtain s1 where s1: "c st = Inr s1" "run_cells cs s1 = Inr st'"
    by (auto split: sum.splits)
  have "P s1" using Cons.prems(3)[of c st s1] s1(1) Cons.prems(2) by simp
  then show ?case using Cons.IH[OF s1(2)] Cons.prems(3) by auto
qed

lemma annotate_list_all2:
  assumes "annotate_list f rs = Inr rs'" "\<And>r r'. f r = Inr r' \<Longrightarrow> R r r'"
  shows "list_all2 R rs rs'"
  using assms
proof (induction rs arbitrary: rs')
  case Nil
  then show ?case by simp
next
  case (Cons r rs)
  then show ?case by (auto split: sum.splits)
qed

lemma annotate_list_length: "annotate_list f rs = Inr rs' \<Longrightarrow> length rs' = length rs"
  using annotate_list_all2[of f rs rs' "\<lambda>_ _. True"] by (simp add: list_all2_lengthD)

lemma annotate_rows_Inr:
  "annotate_rows f mt = Inr mt' \<Longrightarrow>
   cols mt' = cols mt \<and> annotate_list f (rows mt) = Inr (rows mt')"
  by (auto simp: annotate_rows_def and_then_Inr_iff)

lemma annotate_cols_Inr:
  "annotate_cols f mt = Inr mt' \<Longrightarrow>
   rows mt' = rows mt \<and> annotate_list f (cols mt) = Inr (cols mt')"
  by (auto simp: annotate_cols_def and_then_Inr_iff)

lemma annotate_cols_length:
  "annotate_cols f mt = Inr mt' \<Longrightarrow> length (cols mt') = length (cols mt)"
  by (auto dest!: annotate_cols_Inr annotate_list_length)

lemma annotate_rows_qc:
  assumes "annotate_rows f mt = Inr mt'" "list_all qc_ok (rows mt)"
    "\<And>r r'. f r = Inr r' \<Longrightarrow> filters r' = filters r \<and> GT r' = GT r"
  shows "list_all qc_ok (rows mt')"
proof -
  from annotate_rows_Inr[OF assms(1)] have "annotate_list f (rows mt) = Inr (rows mt')" by simp
  then show ?thesis
    using assms(2)
  proof (rule annotate_list_all)
    fix r r' assume "f r = Inr r'" "qc_ok r"
    then show "qc_ok r'" using assms(3)[of r r'] qc_ok_cong[of r' r] by simp
  qed
qed

lemma annotate_gene_name_fields:
  "annotate_gene_name gene_of r = Inr r' \<Longrightarrow> filters r' = filters r \<and> GT r' = GT r"
  by (auto simp: annotate_gene_name_def)

lemma annotate_skat_weight_fields:
  "annotate_skat_weight r = Inr r' \<Longrightarrow> filters r' = filters r \<and> GT r' = GT r"
  by (auto simp: annotate_skat_weight_def split: sum.splits)

lemma skat_mt_of_qc:
  assumes "skat_mt_of sc mt = Inr sm" "list_all qc_ok (rows mt)"
  shows "list_all qc_ok (rows sm)"
proof -
  from assms(1) obtain m1 m2 where m: "annotate_cols (annotate_pca sc) mt = Inr m1"
    "annotate_rows (\<lambda>r. Inr (variant_qc r)) m1 = Inr m2"
    "annotate_rows annotate_skat_weight m2 = Inr sm"
    by (auto simp: skat_mt_of_def and_then_Inr_iff)
  from m(1) assms(2) have "list_all qc_ok (rows m1)" by (simp add: annotate_cols_Inr)
  then have "list_all qc_ok (rows m2)"
    by (rule annotate_rows_qc[OF m(2)]) (auto simp: variant_qc_def)
  then show ?thesis
    by (rule annotate_rows_qc[OF m(3)]) (rule annotate_skat_weight_fields)
qed

text \<open>The grouped tables follow the matrix table they were aggregated from.\<close>

lemma filter_some_variant_eq:
  "filter_some_variant gm =
   Inr (gm\<lparr>grows := filter (\<lambda>gr. some_variant_expr gr = Inr (Some True)) (grows gm)\<rparr>)"
proof -
  have "filter_rows_list some_variant_expr True rs
        = Inr (filter (\<lambda>gr. some_variant_expr gr = Inr (Some True)) rs)" for rs
    by (induction rs) (auto simp: some_variant_expr_def)
  then show ?thesis by (simp add: filter_some_variant_def)
qed

lemma aggregated_from_new:
  "burden_mt_of mt = Inr gm \<Longrightarrow> aggregated_from burden_mt_of (Some mt) (Some gm)"
  "weighted_xx_of mt = Inr gm \<Longrightarrow> aggregated_from weighted_xx_of (Some mt) (Some gm)"
  by (auto simp: aggregated_from_def burden_mt_of_def weighted_xx_of_def filter_some_variant_eq
      group_aggregate_def)

lemma aggregated_from_cols:
  assumes "rows mt' = rows mt" "length (cols mt') = length (cols mt)"
  shows "aggregated_from burden_mt_of (Some mt') v = aggregated_from burden_mt_of (Some mt) v"
    "aggregated_from weighted_xx_of (Some mt') v = aggregated_from weighted_xx_of (Some mt) v"
  using assms
  by (cases v; simp add: aggregated_from_def burden_mt_of_def weighted_xx_of_def
      filter_some_variant_eq group_aggregate_def)+

lemma has_alt_rows_cong:
  assumes "list_all2 (\<lambda>r r'. gene_name r' = gene_name r \<and> GT r' = GT r) rs rs'"
  shows "map gene_name rs' = map gene_name rs"
    "map (\<lambda>r. has_alt r (entry r j)) (filter (\<lambda>r. gene_name r = k) rs')
     = map (\<lambda>r. has_alt r (entry r j)) (filter (\<lambda>r. gene_name r = k) rs)"
  using assms
  by (induction rule: list_all2_induct) (auto simp: has_alt_def entry_def)

lemma aggregated_from_rows:
  assumes "list_all2 (\<lambda>r r'. gene_name r' = gene_name r \<and> GT r' = GT r) (rows mt) (rows mt')"
    "length (cols mt') = length (cols mt)"
  shows "aggregated_from burden_mt_of (Some mt') v = aggregated_from burden_mt_of (Some mt) v"
proof -
  from has_alt_rows_cong[OF assms(1)] assms(2)
  have "grows (group_aggregate has_alt mt') = grows (group_aggregate has_alt mt)"
    by (simp add: group_aggregate_def)
  then show ?thesis using assms(2)
    by (cases v) (simp_all add: aggregated_from_def burden_mt_of_def filter_some_variant_eq)
qed

lemma aggregated_from_gcols:
  "aggregated_from f vmt (Some gm) \<Longrightarrow> length cs = length (gcols gm) \<Longrightarrow>
   aggregated_from f vmt (Some (gm\<lparr>gcols := cs\<rparr>))"
  by (auto simp: aggregated_from_def split: option.splits sum.splits)

lemma qc_established:
  assumes "run_cells [cell_read_mt, cell_rare, cell_non_ref] st = Inr st'"
    "v_skat_mt st = None" "v_burden_mt st = None" "v_xx st = None"
  shows "qc_inv st' \<and> ungrouped st'"
proof -
  from assms(1) obtain s1 s2 where s: "cell_read_mt st = Inr s1" "cell_rare s1 = Inr s2"
    "cell_non_ref s2 = Inr st'"
    by (auto split: sum.splits)
  from s(1) obtain m0 m1 where m1: "filter_rows pass_expr True m0 = Inr m1"
    "s1 = st\<lparr>v_mt := Some m1\<rparr>"
    by (auto simp: cell_read_mt_def and_then_Inr_iff)
  from s(2) m1(2) obtain m2 where m2: "filter_rows rare_expr True m1 = Inr m2"
    "s2 = s1\<lparr>v_mt := Some m2\<rparr>"
    by (auto simp: cell_rare_def and_then_Inr_iff need_Inr_iff)
  from s(3) m2(2) obtain m3 where m3: "filter_rows all_hom_ref_expr False m2 = Inr m3"
    "st' = s2\<lparr>v_mt := Some m3\<rparr>"
    by (auto simp: cell_non_ref_def and_then_Inr_iff need_Inr_iff)
  have "list_all qc_ok (rows m3)"
    using filter_rows_Inr[OF m1(1)] filter_rows_Inr[OF m2(1)] filter_rows_Inr[OF m3(1)]
    by (auto simp: list_all_iff intro: qc_ok_from_filters)
  then show ?thesis using m1(2) m2(2) m3(2) assms(2,3,4)
    by (simp add: qc_inv_def rows_ok_def aggregated_from_def ungrouped_def)
qed

lemma cell_read_genes_qc:
  "cell_read_genes st = Inr st' \<Longrightarrow> qc_inv st \<and> ungrouped st \<Longrightarrow> qc_inv st' \<and> ungrouped st'"
  by (auto simp: cell_read_genes_def and_then_Inr_iff qc_inv_def ungrouped_def)

lemma cell_gene_name_qc:
  assumes "cell_gene_name st = Inr st'" "qc_inv st \<and> ungrouped st"
  shows "qc_inv st' \<and> ungrouped st'"
proof -
  from assms(1) obtain mt gene_of mt' where m: "v_mt st = Some mt"
    "annotate_rows (annotate_gene_name gene_of) mt = Inr mt'" "st' = st\<lparr>v_mt := Some mt'\<rparr>"
    by (auto simp: cell_gene_name_def and_then_Inr_iff need_Inr_iff)
  from assms(2) m(1) have "list_all qc_ok (rows mt)" by (simp add: qc_inv_def rows_ok_def)
  then have "list_all qc_ok (rows mt')"
    by (rule annotate_rows_qc[OF m(2)]) (rule annotate_gene_name_fields)
  then show ?thesis using assms(2) m(3)
    by (simp add: qc_inv_def rows_ok_def ungrouped_def aggregated_from_def)
qed

lemma cell_phenos_qc:
  assumes "cell_phenos st = Inr st'" "qc_inv st"
  shows "qc_inv st'"
proof -
  from assms(1) obtain mt phenos pheno_of mt' where m: "v_mt st = Some mt"
    "annotate_cols (annotate_phenos pheno_of) mt = Inr mt'"
    "st' = st\<lparr>v_phenos := Some phenos, v_mt := Some mt'\<rparr>"
    by (auto simp: cell_phenos_def and_then_Inr_iff need_Inr_iff)
  from m(2) have e: "rows mt' = rows mt" "length (cols mt') = length (cols mt)"
    by (simp_all add: annotate_cols_Inr annotate_cols_length)
  note a = aggregated_from_cols[OF e]
  show ?thesis using assms(2) m(1,3) e
    by (simp add: qc_inv_def rows_ok_def a)
qed

lemma cell_burden_mt_qc:
  assumes "cell_burden_mt st = Inr st'" "qc_inv st"
  shows "qc_inv st'"
proof -
  from assms(1) obtain mt bm where m: "v_mt st = Some mt" "burden_mt_of mt = Inr bm"
    "st' = st\<lparr>v_burden_mt := Some bm\<rparr>"
    by (auto simp: cell_burden_mt_def and_then_Inr_iff need_Inr_iff)
  from aggregated_from_new(1)[OF m(2)] show ?thesis using assms(2) m(1,3)
    by (simp add: qc_inv_def)
qed

lemma cell_pca_qc: "cell_pca lib st = Inr st' \<Longrightarrow> qc_inv st \<Longrightarrow> qc_inv st'"
  by (auto simp: cell_pca_def and_then_Inr_iff qc_inv_def)

lemma cell_burden_results_qc:
  assumes "cell_burden_results lib st = Inr st'" "qc_inv st"
  shows "qc_inv st'"
proof -
  from assms(1) obtain bm sc cs res where m: "v_burden_mt st = Some bm"
    "annotate_list (annotate_pca sc) (gcols bm) = Inr cs"
    "st' = st\<lparr>v_burden_mt := Some (bm\<lparr>gcols := cs\<rparr>), v_burden_results := Some res\<rparr>"
    by (auto simp: cell_burden_results_def and_then_Inr_iff need_Inr_iff)
  from assms(2) m(1) have "aggregated_from burden_mt_of (v_mt st) (Some bm)"
    by (simp add: qc_inv_def)
  then have "aggregated_from burden_mt_of (v_mt st) (Some (bm\<lparr>gcols := cs\<rparr>))"
    using annotate_list_length[OF m(2)] by (rule aggregated_from_gcols)
  then show ?thesis using assms(2) m(3) by (simp add: qc_inv_def)
qed

lemma cell_linreg_qc:
  assumes "cell_linreg pheno lib st = Inr st'" "qc_inv st"
  shows "qc_inv st'"
proof -
  from assms(1) obtain mt sc mt' res where m: "v_mt st = Some mt"
    "annotate_cols (annotate_pca sc) mt = Inr mt'"
    "st' = st\<lparr>v_mt := Some mt', v_linreg_results := Some res,
               v_ht := Some (VariantResults res)\<rparr>"
    by (auto simp: cell_linreg_def and_then_Inr_iff need_Inr_iff)
  from m(2) have e: "rows mt' = rows mt" "length (cols mt') = length (cols mt)"
    by (simp_all add: annotate_cols_Inr annotate_cols_length)
  note a = aggregated_from_cols[OF e]
  show ?thesis using assms(2) m(1,3) e
    by (simp add: qc_inv_def rows_ok_def a)
qed

lemma cell_weighted_burden_qc:
  assumes "cell_weighted_burden lib st = Inr st'" "qc_inv st"
  shows "qc_inv st'"
proof -
  from assms(1) obtain mt m1 sc m2 xx wb where m: "v_mt st = Some mt"
    "annotate_rows (\<lambda>r. Inr (annotate_weights r)) mt = Inr m1"
    "annotate_cols (annotate_pca sc) m1 = Inr m2"
    "st' = st\<lparr>v_mt := Some m2, v_xx := Some xx, v_weighted_burden := Some wb,
               v_ht := Some (GeneResults wb)\<rparr>"
    "weighted_xx_of m2 = Inr xx"
    by (auto simp: cell_weighted_burden_def and_then_Inr_iff need_Inr_iff)
  from assms(2) m(1) have "list_all qc_ok (rows mt)" by (simp add: qc_inv_def rows_ok_def)
  then have "list_all qc_ok (rows m1)"
    by (rule annotate_rows_qc[OF m(2)]) (auto simp: annotate_weights_def)
  then have m2: "list_all qc_ok (rows m2)" using m(3) by (simp add: annotate_cols_Inr)
  have "list_all2 (\<lambda>r r'. gene_name r' = gene_name r \<and> GT r' = GT r) (rows mt) (rows m1)"
    using annotate_rows_Inr[OF m(2)]
    by (auto elim!: annotate_list_all2 simp: annotate_weights_def)
  moreover have "length (cols m2) = length (cols mt)" "rows m2 = rows m1"
    using annotate_cols_length[OF m(3)] annotate_rows_Inr[OF m(2)] annotate_cols_Inr[OF m(3)]
    by simp_all
  ultimately have "aggregated_from burden_mt_of (Some m2) (v_burden_mt st)
      = aggregated_from burden_mt_of (Some mt) (v_burden_mt st)"
    by (intro aggregated_from_rows) simp_all
  with m2 aggregated_from_new(2)[OF m(5)] show ?thesis using assms(2) m(1,4)
    by (simp add: qc_inv_def rows_ok_def)
qed

lemma cell_skat_qc:
  assumes "cell_skat lib st = Inr st'" "qc_inv st"
  shows "qc_inv st'"
proof -
  from assms(1) obtain mt sc sm res where m: "v_mt st = Some mt"
    "skat_mt_of sc mt = Inr sm"
    "st' = st\<lparr>v_skat_mt := Some sm, v_skat_results := Some res\<rparr>"
    by (auto simp: cell_skat_def and_then_Inr_iff need_Inr_iff)
  from assms(2) m(1) have "list_all qc_ok (rows mt)" by (simp add: qc_inv_def rows_ok_def)
  then have "list_all qc_ok (rows sm)" by (rule skat_mt_of_qc[OF m(2)])
  then show ?thesis using assms(2) m(3) by (simp add: qc_inv_def rows_ok_def)
qed

lemma cell_fault_qc: "cell_fault st = Inr st' \<Longrightarrow> qc_inv st \<Longrightarrow> qc_inv st'"
  by (auto simp: cell_fault_def and_then_Inr_iff qc_inv_def)

lemma later_cells_qc:
  assumes "c \<in> set (later_cells lib)" "c s = Inr s'" "qc_inv s"
  shows "qc_inv s'"
  using assms
  by (auto simp: later_cells_def rare_variant_cells_def
      intro: cell_phenos_qc cell_burden_mt_qc cell_pca_qc
        cell_burden_results_qc cell_linreg_qc cell_weighted_burden_qc cell_skat_qc cell_fault_qc)

lemma take_cells_split:
  assumes "3 \<le> n"
  shows "take n (rare_variant_cells lib) =
     [cell_read_mt, cell_rare, cell_non_ref] @ take (n - 3) [cell_read_genes, cell_gene_name]
       @ take (n - 5) (later_cells lib)"
proof -
  have t: "take 3 (rare_variant_cells lib) = [cell_read_mt, cell_rare, cell_non_ref]"
    and d: "drop 3 (rare_variant_cells lib) = [cell_read_genes, cell_gene_name] @ later_cells lib"
    by (simp_all add: later_cells_def rare_variant_cells_def)
  have s: "take (n - 3) ([cell_read_genes, cell_gene_name] @ later_cells lib)
      = take (n - 3) [cell_read_genes, cell_gene_name] @ take (n - 5) (later_cells lib)"
    unfolding take_append by simp
  from assms have "take n (rare_variant_cells lib) =
      take 3 (rare_variant_cells lib) @ take (n - 3) (drop 3 (rare_variant_cells lib))"
    using take_add[of 3 "n - 3" "rare_variant_cells lib"] by simp
  then show ?thesis by (simp only: t d s)
qed

lemma qc_inv_run:
  assumes "run_cells (take n (rare_variant_cells lib)) (fresh_kernel fs) = Inr st" "3 \<le> n"
  shows "qc_inv st"
proof -
  from assms have "run_cells ([cell_read_mt, cell_rare, cell_non_ref]
      @ take (n - 3) [cell_read_genes, cell_gene_name] @ take (n - 5) (later_cells lib))
      (fresh_kernel fs) = Inr st"
    using take_cells_split[of n lib] by simp
  then obtain s3 s5 where s: "run_cells [cell_read_mt, cell_rare, cell_non_ref] (fresh_kernel fs) = Inr s3"
    "run_cells (take (n - 3) [cell_read_genes, cell_gene_name]) s3 = Inr s5"
    "run_cells (take (n - 5) (later_cells lib)) s5 = Inr st"
    unfolding run_cells_append by (auto split: sum.splits)
  from s(1) have "qc_inv s3 \<and> ungrouped s3"
    by (rule qc_established) (simp_all add: fresh_kernel_def)
  with s(2) have "qc_inv s5 \<and> ungrouped s5"
  proof (rule run_cells_preserves)
    fix c s s' assume "c \<in> set (take (n - 3) [cell_read_genes, cell_gene_name])"
      "c s = Inr s'" "qc_inv s \<and> ungrouped s"
    then show "qc_inv s' \<and> ungrouped s'"
      by (auto dest!: in_set_takeD dest: cell_read_genes_qc cell_gene_name_qc)
  qed
  then have "qc_inv s5" by simp
  with s(3) show ?thesis
  proof (rule run_cells_preserves)
    fix c s s' assume "c \<in> set (take (n - 5) (later_cells lib))" "c s = Inr s'" "qc_inv s"
    then show "qc_inv s'" using later_cells_qc[of c lib s s'] by (auto dest: in_set_takeD)
  qed
qed

text \<open>
  Claim C9: once the three filter cells have run, in every later state of the
  run each row of the matrix table \<open>mt\<close> has an empty filters set, a frequency
  of the first alternate allele strictly below 0.01 and a call that is not
  homozygous reference (\<open>qc_ok\<close>); so has each row of \<open>skat_mt\<close>; and the
  grouped tables \<open>burden_mt\<close> and \<open>xx\<close> of the burden tests have the rows that
  their aggregation computes from that same \<open>mt\<close>.
\<close>

theorem qc_invariant:
  assumes "run_cells (take n (rare_variant_cells lib)) (fresh_kernel fs) = Inr st" "3 \<le> n"
  shows "\<exists>mt. v_mt st = Some mt \<and> list_all qc_ok (rows mt)
           \<and> (case v_skat_mt st of None \<Rightarrow> True
              | Some skat_mt \<Rightarrow> list_all qc_ok (rows skat_mt))
           \<and> (case v_burden_mt st of None \<Rightarrow> True
              | Some burden_mt \<Rightarrow>
                  \<exists>gm. burden_mt_of mt = Inr gm \<and> grows burden_mt = grows gm)
           \<and> (case v_xx st of None \<Rightarrow> True
              | Some xx \<Rightarrow> \<exists>gm. weighted_xx_of mt = Inr gm \<and> grows xx = grows gm)"
  using qc_inv_run[OF assms]
  by (auto simp: qc_inv_def rows_ok_def aggregated_from_def split: option.splits sum.splits)


section \<open>The statistic of the burden test\<close>


lemma group_aggregate_entry:
  assumes "gr \<in> set (grows (group_aggregate cond mt))" "j < length (cols mt)"
  shows "n_variants gr ! j =
         count_where (map (\<lambda>r. cond r (entry r j)) (filter (\<lambda>r. gene_name r = gene gr) (rows mt)))"
  using assms by (auto simp: group_aggregate_def)

lemma filter_some_variant_subset:
  "filter_some_variant gm = Inr gm' \<Longrightarrow> set (grows gm') \<subseteq> set (grows gm) \<and> gcols gm' = gcols gm"
  by (auto simp: filter_some_variant_def split: sum.splits dest: filter_rows_list_eq)

lemma count_where_has_alt:
  "count_where (map (\<lambda>r. has_alt r (entry r j)) rs) = int (length (filter (\<lambda>r. carries r j) rs))"
proof (induction rs)
  case Nil
  then show ?case by (simp add: count_where_def)
next
  case (Cons r rs)
  then show ?case
    by (cases "entry r j") (auto simp: count_where_def has_alt_def hl_gt_def carries_def)
qed

lemma n_alt_alleles_split:
  "n_alt_alleles c = (if 0 < n_alt_alleles c then 1 else 0) + (if n_alt_alleles c = 2 then 1 else 0)"
  by (cases c) auto

lemma alt_sum_split:
  "sum_list (map (\<lambda>r. case entry r j of None \<Rightarrow> 0 | Some c \<Rightarrow> n_alt_alleles c) rs) =
   int (length (filter (\<lambda>r. carries r j) rs)) + int (length (filter (\<lambda>r. has_two_alt r j) rs))"
proof (induction rs)
  case Nil
  then show ?case by simp
next
  case (Cons r rs)
  show ?case
  proof (cases "entry r j")
    case None
    with Cons show ?thesis by (simp add: carries_def has_two_alt_def)
  next
    case (Some c)
    with Cons n_alt_alleles_split[of c] show ?thesis
      by (auto simp: carries_def has_two_alt_def split: if_splits)
  qed
qed

lemma burden_entry:
  assumes "burden_mt_of mt = Inr burden_mt" "gr \<in> set (grows burden_mt)" "gene gr = Some g"
    "j < length (cols mt)"
  shows "n_variants_x gr ! j = Some (real_of_int (carried_variants (rows mt) g j))
         \<and> alt_allele_sum (rows mt) g j
             = carried_variants (rows mt) g j + two_alt_variants (rows mt) g j"
proof -
  from assms(1,2) have gr: "gr \<in> set (grows (group_aggregate has_alt mt))"
    using filter_some_variant_subset[of "group_aggregate has_alt mt" burden_mt]
    by (auto simp: burden_mt_of_def)
  then have len: "length (n_variants gr) = length (cols mt)"
    by (auto simp: group_aggregate_def)
  from group_aggregate_entry[OF gr assms(4)] assms(3)
  have "n_variants gr ! j = carried_variants (rows mt) g j"
    by (simp add: count_where_has_alt carried_variants_def)
  with len assms(4) have "n_variants_x gr ! j = Some (real_of_int (carried_variants (rows mt) g j))"
    by (simp add: n_variants_x_def)
  moreover have "alt_allele_sum (rows mt) g j
      = carried_variants (rows mt) g j + two_alt_variants (rows mt) g j"
    by (simp add: alt_allele_sum_def carried_variants_def two_alt_variants_def alt_sum_split)
  ultimately show ?thesis by simp
qed

lemma cell_burden_results_establishes:
  "cell_burden_results lib st = Inr st' \<Longrightarrow> regression_inv lib st'"
  by (auto simp: cell_burden_results_def and_then_Inr_iff need_Inr_iff regression_inv_def)

lemma regression_inv_kept:
  "cell_linreg pheno lib st = Inr st' \<Longrightarrow> regression_inv lib st \<Longrightarrow> regression_inv lib st'"
  "cell_weighted_burden lib st = Inr st' \<Longrightarrow> regression_inv lib st \<Longrightarrow> regression_inv lib st'"
  "cell_skat lib st = Inr st' \<Longrightarrow> regression_inv lib st \<Longrightarrow> regression_inv lib st'"
  "cell_fault st = Inr st' \<Longrightarrow> regression_inv lib st \<Longrightarrow> regression_inv lib st'"
  by (auto simp: cell_linreg_def cell_weighted_burden_def cell_skat_def cell_fault_def
      and_then_Inr_iff regression_inv_def split: option.splits)

lemma take_cells_split_regression:
  assumes "9 \<le> n"
  shows "take n (rare_variant_cells lib) =
     take 8 (rare_variant_cells lib) @ [cell_burden_results lib]
       @ take (n - 9) [cell_linreg pheno1 lib, cell_weighted_burden lib, cell_skat lib,
                       cell_fault, cell_linreg pheno2 lib]"
proof -
  from assms have "take n (rare_variant_cells lib) =
      take 9 (rare_variant_cells lib) @ take (n - 9) (drop 9 (rare_variant_cells lib))"
    using take_add[of 9 "n - 9" "rare_variant_cells lib"] by simp
  then show ?thesis by (simp add: rare_variant_cells_def)
qed

lemma regression_inv_run:
  assumes "run_cells (take n (rare_variant_cells lib)) (fresh_kernel fs) = Inr st" "9 \<le> n"
  shows "regression_inv lib st"
proof -
  let ?rest = "[cell_linreg pheno1 lib, cell_weighted_burden lib, cell_skat lib,
                cell_fault, cell_linreg pheno2 lib]"
  from assms have "run_cells (take 8 (rare_variant_cells lib) @ [cell_burden_results lib]
       @ take (n - 9) ?rest) (fresh_kernel fs) = Inr st"
    using take_cells_split_regression[of n lib] by simp
  then obtain s8 s9 where s: "cell_burden_results lib s8 = Inr s9"
    "run_cells (take (n - 9) ?rest) s9 = Inr st"
    unfolding run_cells_append by (auto split: sum.splits)
  from s(1) have "regression_inv lib s9" by (rule cell_burden_results_establishes)
  with s(2) show ?thesis
  proof (rule run_cells_preserves)
    fix c s s' assume "c \<in> set (take (n - 9) ?rest)" "c s = Inr s'" "regression_inv lib s"
    then show "regression_inv lib s'"
      by (auto dest!: in_set_takeD intro: regression_inv_kept)
  qed
qed

text \<open>
  Claim C1, amended: once the cell of the burden test has run, \<open>burden_results\<close>
  is what \<open>hl.linear_regression_rows\<close> returned for \<open>y = burden_mt.pheno1\<close> and
  \<open>x = burden_mt.n_variants\<close>, and for every gene \<open>g\<close> of \<open>burden_mt\<close> and every
  sample \<open>j\<close> this \<open>x\<close> is the number of variants of \<open>g\<close> in \<open>mt\<close> at which the
  sample's call has at least one alternate allele; the sum of the sample's
  alternate-allele counts over the variants of \<open>g\<close> is this number plus the
  number of variants of \<open>g\<close> at which the call has two alternate alleles.
\<close>

theorem burden_statistic:
  assumes "run_cells (take n (rare_variant_cells lib)) (fresh_kernel fs) = Inr st" "9 \<le> n"
  shows "\<exists>mt burden_mt covs res.
           v_mt st = Some mt \<and> v_burden_mt st = Some burden_mt
           \<and> v_burden_results st = Some (zip (map gene (grows burden_mt)) res)
           \<and> linear_regression_rows lib (map pheno1 (gcols burden_mt))
               (map n_variants_x (grows burden_mt)) covs = Inr res
           \<and> length (gcols burden_mt) = length (cols mt)
           \<and> (\<forall>gr \<in> set (grows burden_mt). \<forall>g j.
                 gene gr = Some g \<and> j < length (cols mt) \<longrightarrow>
                 n_variants_x gr ! j = Some (real_of_int (carried_variants (rows mt) g j))
                 \<and> alt_allele_sum (rows mt) g j
                     = carried_variants (rows mt) g j + two_alt_variants (rows mt) g j)"
proof -
  from assms(2) have "3 \<le> n" by simp
  from qc_inv_run[OF assms(1) this] regression_inv_run[OF assms]
  obtain mt bm gm res where v: "v_mt st = Some mt" "v_burden_mt st = Some bm"
    "burden_mt_of mt = Inr gm" "grows bm = grows gm" "length (gcols bm) = length (cols mt)"
    "v_burden_results st = Some res" "regress_genes lib bm = Inr res"
    by (auto simp: qc_inv_def aggregated_from_def regression_inv_def
        split: option.splits sum.splits)
  from v(7) obtain covs res0 where r:
    "linear_regression_rows lib (map pheno1 (gcols bm)) (map n_variants_x (grows bm)) covs
       = Inr res0"
    "res = zip (map gene (grows bm)) res0"
    by (auto simp: regress_genes_def and_then_Inr_iff)
  have "n_variants_x gr ! j = Some (real_of_int (carried_variants (rows mt) g j))
        \<and> alt_allele_sum (rows mt) g j
            = carried_variants (rows mt) g j + two_alt_variants (rows mt) g j"
    if "gr \<in> set (grows bm)" "gene gr = Some g" "j < length (cols mt)" for gr g j
    using burden_entry[OF v(3) _ that(2,3)] that(1) v(4) by simp
  with v(1,2,5,6) r show ?thesis by blast
qed


section \<open>The weights of the SKAT test\<close>

lemma AN_zero: "AN cs = 0 \<longleftrightarrow> cs = []"
  by (simp add: AN_def)

lemma hl_index_AF:
  "hl_index (call_stats_AF (GT r) (alleles r)) 1 = Inr x \<Longrightarrow> x = alt_allele_frequency r"
  by (auto simp: hl_index_def call_stats_AF_def Let_def AN_zero alt_allele_frequency_def AN_def
      split: if_splits)

lemma skat_weight_row:
  assumes "annotate_skat_weight (variant_qc r) = Inr r'"
  shows "weight r' = map_option (\<lambda>af. dbeta af 1 25) (alt_allele_frequency r')
         \<and> GT r' = GT r \<and> filters r' = filters r"
proof -
  from assms obtain x where x: "hl_index (call_stats_AF (GT r) (alleles r)) 1 = Inr x"
    "r' = (variant_qc r)\<lparr>weight := map_option (\<lambda>x. dbeta x 1 25) x\<rparr>"
    by (auto simp: annotate_skat_weight_def variant_qc_def split: sum.splits)
  from hl_index_AF[OF x(1)] x(2) show ?thesis
    by (simp add: variant_qc_def alt_allele_frequency_def)
qed

lemma AC_nonneg: "0 \<le> AC i cs"
proof -
  have "0 \<le> copies i c" for c by (cases c) auto
  then show ?thesis unfolding AC_def by (induction cs) (auto intro: add_nonneg_nonneg)
qed

lemma alt_allele_frequency_nonneg: "alt_allele_frequency r = Some af \<Longrightarrow> 0 \<le> af"
  by (auto simp: alt_allele_frequency_def AC_nonneg split: if_splits)

lemma dbeta_1_25: "0 \<le> x \<Longrightarrow> x \<le> 1 \<Longrightarrow> dbeta x 1 25 = 25 * (1 - x) ^ 24"
proof -
  have "fact 25 = (25 * fact 24 :: real)"
    using fact_Suc[of 24, where 'a=real] by (simp del: fact_Suc)
  then show "0 \<le> x \<Longrightarrow> x \<le> 1 \<Longrightarrow> dbeta x 1 25 = 25 * (1 - x) ^ 24"
    by (simp add: dbeta_def del: fact_Suc)
qed

lemma density_above_one:
  fixes x :: real
  assumes "0 \<le> x" "x < 1/100"
  shows "1 < 25 * (1 - x) ^ 24"
proof -
  have "1 + real 24 * (- x) \<le> (1 + (- x)) ^ 24"
    using assms by (intro Bernoulli_inequality) simp
  then have "1 - 24 * x \<le> (1 - x) ^ 24" by simp
  moreover have "76/100 < 1 - 24 * x" using assms by simp
  ultimately show ?thesis by simp
qed

lemma pbeta_le_one: "pbeta_1 x b \<le> 1"
proof -
  have "0 \<le> x \<Longrightarrow> x \<le> 1 \<Longrightarrow> 0 \<le> (1 - x) ^ b" by simp
  then show ?thesis by (auto simp: pbeta_1_def)
qed


lemma skat_mt_of_rows:
  assumes "skat_mt_of sc mt = Inr sm" "list_all qc_ok (rows mt)"
  shows "list_all skat_row_ok (rows sm)"
proof -
  from assms(1) obtain m1 m2 where m: "annotate_cols (annotate_pca sc) mt = Inr m1"
    "annotate_rows (\<lambda>r. Inr (variant_qc r)) m1 = Inr m2"
    "annotate_rows annotate_skat_weight m2 = Inr sm"
    by (auto simp: skat_mt_of_def and_then_Inr_iff)
  from m(1) assms(2) have "list_all qc_ok (rows m1)" by (simp add: annotate_cols_Inr)
  with annotate_rows_Inr[OF m(2)]
  have "list_all (\<lambda>q. \<exists>r. q = variant_qc r \<and> qc_ok r) (rows m2)"
    by (auto elim!: annotate_list_all)
  with annotate_rows_Inr[OF m(3)] show ?thesis
  proof (elim conjE annotate_list_all)
    fix q r' assume "annotate_skat_weight q = Inr r'" "\<exists>r. q = variant_qc r \<and> qc_ok r"
    then obtain r where r: "q = variant_qc r" "qc_ok r" "annotate_skat_weight (variant_qc r) = Inr r'"
      by auto
    from skat_weight_row[OF r(3)] r(2) qc_ok_cong[of r' r] show "skat_row_ok r'"
      by (simp add: skat_row_ok_def)
  qed
qed

lemma cell_skat_establishes:
  assumes "cell_skat lib st = Inr st'" "qc_inv st"
  shows "skat_inv lib st'"
proof -
  from assms(1) obtain mt sc sm res where m: "v_mt st = Some mt"
    "skat_mt_of sc mt = Inr sm" "call_skat lib sm = Inr res"
    "st' = st\<lparr>v_skat_mt := Some sm, v_skat_results := Some res\<rparr>"
    by (auto simp: cell_skat_def and_then_Inr_iff need_Inr_iff)
  from assms(2) m(1) have "list_all qc_ok (rows mt)" by (simp add: qc_inv_def rows_ok_def)
  then have "list_all skat_row_ok (rows sm)" by (rule skat_mt_of_rows[OF m(2)])
  then show ?thesis using m(3,4) by (simp add: skat_inv_def)
qed

lemma cell_fault_skat: "cell_fault st = Inr st' \<Longrightarrow> skat_inv lib st \<Longrightarrow> skat_inv lib st'"
  by (auto simp: cell_fault_def and_then_Inr_iff skat_inv_def split: option.splits)

lemma cell_linreg_skat: "cell_linreg pheno lib st = Inr st' \<Longrightarrow> skat_inv lib st \<Longrightarrow> skat_inv lib st'"
  by (auto simp: cell_linreg_def and_then_Inr_iff skat_inv_def split: option.splits)

lemma take_cells_split_skat:
  assumes "12 \<le> n"
  shows "take n (rare_variant_cells lib) =
     take 11 (rare_variant_cells lib) @ [cell_skat lib]
       @ take (n - 12) [cell_fault, cell_linreg pheno2 lib]"
proof -
  from assms have "take n (rare_variant_cells lib) =
      take 12 (rare_variant_cells lib) @ take (n - 12) (drop 12 (rare_variant_cells lib))"
    using take_add[of 12 "n - 12" "rare_variant_cells lib"] by simp
  then show ?thesis by (simp add: rare_variant_cells_def)
qed

lemma skat_inv_run:
  assumes "run_cells (take n (rare_variant_cells lib)) (fresh_kernel fs) = Inr st" "12 \<le> n"
  shows "skat_inv lib st"
proof -
  from assms have "run_cells (take 11 (rare_variant_cells lib) @ [cell_skat lib]
       @ take (n - 12) [cell_fault, cell_linreg pheno2 lib]) (fresh_kernel fs) = Inr st"
    using take_cells_split_skat[of n lib] by simp
  then obtain s11 s12 where s: "run_cells (take 11 (rare_variant_cells lib)) (fresh_kernel fs) = Inr s11"
    "cell_skat lib s11 = Inr s12"
    "run_cells (take (n - 12) [cell_fault, cell_linreg pheno2 lib]) s12 = Inr st"
    unfolding run_cells_append by (auto split: sum.splits)
  from s(1) have "qc_inv s11" by (rule qc_inv_run) simp
  with s(2) have "skat_inv lib s12" by (rule cell_skat_establishes)
  with s(3) show ?thesis
  proof (rule run_cells_preserves)
    fix c s s' assume "c \<in> set (take (n - 12) [cell_fault, cell_linreg pheno2 lib])"
      "c s = Inr s'" "skat_inv lib s"
    then show "skat_inv lib s'"
      by (auto dest!: in_set_takeD intro: cell_fault_skat cell_linreg_skat)
  qed
qed

text \<open>
  Claim C8: once the SKAT cell has run, \<open>skat_results\<close> is what \<open>hl.skat\<close>
  returned for the weights \<open>skat_mt.weight\<close>, and the weight of every row of
  \<open>skat_mt\<close> is the Beta(1, 25) density \<open>25 (1 - af)^24\<close> at the frequency \<open>af\<close>
  of the row's first alternate allele, which is not the value of the Beta(1,
  25) distribution function there.
\<close>

theorem skat_weight_is_beta_density:
  assumes "run_cells (take n (rare_variant_cells lib)) (fresh_kernel fs) = Inr st" "12 \<le> n"
  shows "\<exists>skat_mt covs res.
           v_skat_mt st = Some skat_mt \<and> v_skat_results st = Some res
           \<and> skat lib (map gene_name (rows skat_mt)) (map weight (rows skat_mt))
               (map pheno2 (cols skat_mt)) (map n_alt_alleles_x (rows skat_mt)) covs = Inr res
           \<and> (\<forall>r \<in> set (rows skat_mt). \<exists>af.
                 alt_allele_frequency r = Some af
                 \<and> weight r = Some (dbeta af 1 25)
                 \<and> dbeta af 1 25 = 25 * (1 - af) ^ 24
                 \<and> dbeta af 1 25 \<noteq> pbeta_1 af 25)"
proof -
  from skat_inv_run[OF assms] obtain sm res where sm: "v_skat_mt st = Some sm"
    "list_all skat_row_ok (rows sm)" "v_skat_results st = Some res" "call_skat lib sm = Inr res"
    by (auto simp: skat_inv_def split: option.splits)
  from sm(4) obtain covs where covs:
    "skat lib (map gene_name (rows sm)) (map weight (rows sm))
       (map pheno2 (cols sm)) (map n_alt_alleles_x (rows sm)) covs = Inr res"
    by (auto simp: call_skat_def and_then_Inr_iff)
  have "\<exists>af. alt_allele_frequency r = Some af \<and> weight r = Some (dbeta af 1 25)
          \<and> dbeta af 1 25 = 25 * (1 - af) ^ 24 \<and> dbeta af 1 25 \<noteq> pbeta_1 af 25"
    if "r \<in> set (rows sm)" for r
  proof -
    from that sm(2) have ok: "qc_ok r"
      "weight r = map_option (\<lambda>af. dbeta af 1 25) (alt_allele_frequency r)"
      by (auto simp: list_all_iff skat_row_ok_def)
    from ok(1) obtain af where af: "alt_allele_frequency r = Some af" "af < 1/100"
      by (auto simp: qc_ok_def split: option.splits)
    from af(1) have nonneg: "0 \<le> af" by (rule alt_allele_frequency_nonneg)
    with af(2) have d: "dbeta af 1 25 = 25 * (1 - af) ^ 24" by (intro dbeta_1_25) auto
    from density_above_one[OF nonneg af(2)] pbeta_le_one[of af 25] d
    have "dbeta af 1 25 \<noteq> pbeta_1 af 25" by simp
    with af(1) ok(2) d show ?thesis by simp
  qed
  with sm(1,3) covs show ?thesis by blast
qed

section \<open>The run of the worked example\<close>

lemma called_Cons_Some [simp]: "called (Some c # gs) = c # called gs"
  by (simp add: called_def List.map_filter_def)

lemma called_Nil [simp]: "called [] = []"
  by (simp add: called_def List.map_filter_def)

lemma called_replicate [simp]: "called (replicate n (Some c)) = replicate n c"
  by (induction n) simp_all

lemma AC_Cons [simp]: "AC i (c # cs) = copies i c + AC i cs"
  by (simp add: AC_def)

lemma AC_replicate [simp]: "AC i (replicate n c) = int n * copies i c"
  by (induction n) (simp_all add: AC_def algebra_simps)

lemma rare_expr_eval:
  "1 < length (alleles r) \<Longrightarrow> rare_expr r = Inr (hl_lt (alt_allele_frequency r) (Some (1/100)))"
  by (simp add: rare_expr_def hl_index_def call_stats_AF_def Let_def AN_zero
      alt_allele_frequency_def AN_def)

lemma all_hom_ref_expr_eval:
  "all_hom_ref_expr r = Inr (Some (\<not> (\<exists>c \<in> set (called (GT r)). \<not> is_hom_ref c)))"
  using all_hom_ref_expr_iff[of r] by (auto simp: all_hom_ref_expr_def)

lemma demo_pass:
  "pass_expr (demo_variant p {||} g) = Inr (Some True)"
  "pass_expr (demo_variant p {|''VQSR''|} g) = Inr (Some False)"
  by (simp_all add: pass_expr_def demo_variant_def hl_eq_def)

lemma demo_rare:
  "rare_expr (demo_variant p f demo_calls) = Inr (Some True)"
  "rare_expr (demo_variant p f demo_common_calls) = Inr (Some False)"
  "rare_expr (demo_variant p f demo_ref_calls) = Inr (Some True)"
  by (simp_all add: rare_expr_eval demo_variant_def demo_calls_def demo_common_calls_def
      demo_ref_calls_def alt_allele_frequency_def hl_lt_def)

lemma demo_non_ref:
  "all_hom_ref_expr (demo_variant p f demo_calls) = Inr (Some False)"
  "all_hom_ref_expr (demo_variant p f demo_ref_calls) = Inr (Some True)"
  by (simp_all add: all_hom_ref_expr_eval demo_variant_def demo_calls_def demo_ref_calls_def)

lemma annotate_list_map:
  "(\<And>x. x \<in> set xs \<Longrightarrow> f x = Inr (g x)) \<Longrightarrow> annotate_list f xs = Inr (map g xs)"
  by (induction xs) simp_all

lemma map_of_const: "k \<in> set ns \<Longrightarrow> map_of (map (\<lambda>n. (n, v)) ns) k = Some v"
  by (induction ns) auto

lemma map_entry: "map (\<lambda>j. f (entry r j)) [0..<length (GT r)] = map f (GT r)"
  by (rule nth_equalityI) (simp_all add: entry_def)

lemma demo_cell1: "cell_read_mt (fresh_kernel demo_files) = Inr demo_st1"
  by (simp add: cell_read_mt_def and_then_def read_matrix_table_def filter_rows_def demo_mt_def
      demo_pass demo_st1_def fresh_kernel_def demo_files_def)

lemma demo_cell2: "cell_rare demo_st1 = Inr demo_st2"
  by (simp add: cell_rare_def and_then_def need_def filter_rows_def demo_rare demo_st1_def
      demo_st2_def)

lemma demo_cell3: "cell_non_ref demo_st2 = Inr demo_st3"
  by (simp add: cell_non_ref_def and_then_def need_def filter_rows_def demo_non_ref demo_st2_def
      demo_st3_def)

lemma demo_files_st3: "files demo_st3 = demo_files"
  by (simp add: demo_st3_def demo_st2_def demo_st1_def fresh_kernel_def)

lemma demo_cell4: "cell_read_genes demo_st3 = Inr demo_st4"
  by (simp add: cell_read_genes_def and_then_def read_table_def demo_files_st3 demo_st4_def)
    (simp add: demo_files_def)

lemma demo_cell5: "cell_gene_name demo_st4 = Inr demo_st5"
  by (simp add: cell_gene_name_def and_then_def need_def demo_st4_def demo_st3_def demo_st5_def
      genes_index_def demo_genes_def annotate_rows_def annotate_gene_name_def demo_row5_def
      interval_contains_def demo_variant_def)

lemma demo_annotate_phenos:
  "annotate_list (annotate_phenos (map_of demo_pheno_rows)) demo_cols = Inr demo_cols6"
  unfolding demo_cols_def demo_cols6_def
  by (simp add: annotate_list_map annotate_phenos_def demo_sample6_def demo_sample_def o_def
      demo_pheno_rows_def)

lemma demo_cell6: "cell_phenos demo_st5 = Inr demo_st6"
  by (simp add: cell_phenos_def and_then_def need_def demo_st5_def demo_st4_def demo_files_st3
      read_table_def phenos_index_def annotate_cols_def demo_st6_def)
    (simp add: demo_files_def demo_phenos_def demo_annotate_phenos)

lemma demo_lengths [simp]:
  "length demo_cols = 101" "length demo_cols6 = 101" "length demo_cols10 = 101"
  "length demo_calls = 101"
  by (simp_all add: demo_cols_def demo_cols6_def demo_cols10_def demo_calls_def)

lemma demo_row_fields [simp]:
  "GT demo_row5 = demo_calls" "gene_name demo_row5 = Some ''G''"
  "GT demo_row11 = demo_calls" "gene_name demo_row11 = Some ''G''"
  "weight2 demo_row11 = Some 20" "alleles demo_row11 = [''A'', ''T'']"
  "locus demo_row5 = (''chr1'', 100)" "locus demo_row11 = (''chr1'', 100)"
  by (simp_all add: demo_row5_def demo_row11_def demo_variant_def)

lemma demo_group:
  assumes "length cs = 101" "GT r = demo_calls"
    "cond r (Some (Call 1 1)) = Some True" "cond r (Some (Call 0 0)) = Some False"
  shows "group_aggregate cond \<lparr>cols = cs, rows = [r]\<rparr> =
         \<lparr>gcols = cs, grows = [\<lparr>gene = gene_name r, n_variants = demo_n_variants\<rparr>]\<rparr>"
proof -
  have "map (\<lambda>j. count_where [cond r (entry r j)]) [0..<length (GT r)]
        = map (\<lambda>g. count_where [cond r g]) (GT r)"
    by (rule map_entry)
  also have "\<dots> = demo_n_variants"
    using assms(3,4) by (simp add: assms(2) demo_calls_def demo_n_variants_def count_where_def)
  finally show ?thesis using assms(1,2) by (simp add: group_aggregate_def)
qed

lemma demo_filter_some:
  "filter_some_variant \<lparr>gcols = cs, grows = [\<lparr>gene = g, n_variants = demo_n_variants\<rparr>]\<rparr>
   = Inr \<lparr>gcols = cs, grows = [\<lparr>gene = g, n_variants = demo_n_variants\<rparr>]\<rparr>"
  by (simp add: filter_some_variant_def some_variant_expr_def agg_sum_def hl_gt_def
      demo_n_variants_def o_def sum_list_replicate)

lemma demo_cell7: "cell_burden_mt demo_st6 = Inr demo_st7"
  by (simp add: cell_burden_mt_def and_then_def need_def demo_st6_def burden_mt_of_def
      demo_group has_alt_def hl_gt_def demo_filter_some demo_st7_def)

lemma demo_cell8: "cell_pca demo_lib demo_st7 = Inr demo_st8"
  by (simp add: cell_pca_def and_then_def need_def demo_st7_def demo_st6_def demo_lib_def
      demo_st8_def demo_pca_scores_def demo_scores_def)

lemma demo_annotate_pca:
  "annotate_list (annotate_pca demo_pca_scores) demo_cols6 = Inr demo_cols10"
  "annotate_list (annotate_pca demo_pca_scores) demo_cols10 = Inr demo_cols10"
proof -
  have look: "map_of demo_pca_scores k = Some demo_scores" if "k \<in> set (map col_s demo_cols6)" for k
    unfolding demo_pca_scores_def using that by (rule map_of_const)
  have "annotate_pca demo_pca_scores c = Inr (c\<lparr>pca := Some demo_scores\<rparr>)"
    if "c \<in> set demo_cols6" for c
    using that by (simp add: annotate_pca_def look)
  then show "annotate_list (annotate_pca demo_pca_scores) demo_cols6 = Inr demo_cols10"
    by (simp add: annotate_list_map demo_cols10_def)
  have "annotate_pca demo_pca_scores c = Inr c" if "c \<in> set demo_cols10" for c
  proof -
    from that have "col_s c \<in> set (map col_s demo_cols6)" "pca c = Some demo_scores"
      by (auto simp: demo_cols10_def)
    then show ?thesis by (simp add: annotate_pca_def look del: set_map)
  qed
  then have "annotate_list (annotate_pca demo_pca_scores) demo_cols10 = Inr (map (\<lambda>c. c) demo_cols10)"
    by (rule annotate_list_map)
  then show "annotate_list (annotate_pca demo_pca_scores) demo_cols10 = Inr demo_cols10" by simp
qed

lemma demo_covariates: "annotate_list covariates demo_cols10 = Inr demo_covs"
proof -
  have "covariates c = Inr [Some 1, Some (1/10), Some (1/5), Some (3/10)]"
    if "c \<in> set demo_cols10" for c
  proof -
    from that have "pca c = Some demo_scores" by (auto simp: demo_cols10_def)
    then show ?thesis by (simp add: covariates_def hl_index_def and_then_def demo_scores_def)
  qed
  then show ?thesis unfolding demo_covs_def by (rule annotate_list_map)
qed

lemma demo_regress:
  "regress_genes demo_lib \<lparr>gcols = demo_cols10, grows = [\<lparr>gene = g, n_variants = ns\<rparr>]\<rparr>
   = Inr [(g, demo_lr)]"
  by (simp add: regress_genes_def demo_covariates and_then_def demo_lib_def demo_lr_def)

lemma demo_cell9: "cell_burden_results demo_lib demo_st8 = Inr demo_st9"
  by (simp add: cell_burden_results_def and_then_def need_def demo_st8_def demo_st7_def
      demo_annotate_pca demo_regress demo_st9_def)

lemma demo_v_mt:
  "v_mt demo_st9 = Some \<lparr>cols = demo_cols6, rows = [demo_row5]\<rparr>"
  "v_mt demo_st10 = Some \<lparr>cols = demo_cols10, rows = [demo_row5]\<rparr>"
  "v_mt demo_st11 = Some \<lparr>cols = demo_cols10, rows = [demo_row11]\<rparr>"
  "v_pca_scores demo_st9 = Some demo_pca_scores"
  "v_pca_scores demo_st10 = Some demo_pca_scores"
  "v_pca_scores demo_st11 = Some demo_pca_scores"
  by (simp_all add: demo_st11_def demo_st10_def demo_st9_def demo_st8_def demo_st7_def
      demo_st6_def)

lemma demo_cell10: "cell_linreg pheno1 demo_lib demo_st9 = Inr demo_st10"
  by (simp add: cell_linreg_def and_then_def need_def demo_v_mt annotate_cols_def
      demo_annotate_pca demo_covariates demo_st10_def)
    (simp add: demo_lib_def demo_lr_def)

lemma demo_cell11: "cell_weighted_burden demo_lib demo_st10 = Inr demo_st11"
proof -
  have w: "annotate_weights demo_row5 = demo_row11"
    by (simp add: annotate_weights_def demo_row11_def demo_row5_def demo_variant_def hl_eq_def
        hl_if_else_def)
  have "weighted_xx_of \<lparr>cols = demo_cols10, rows = [demo_row11]\<rparr>
        = Inr \<lparr>gcols = demo_cols10, grows = [\<lparr>gene = Some ''G'', n_variants = demo_n_variants\<rparr>]\<rparr>"
    by (simp add: weighted_xx_of_def demo_group has_weighted_alt_def hl_gt_def hl_mul_def
        demo_filter_some)
  then show ?thesis
    by (simp add: cell_weighted_burden_def and_then_def need_def demo_v_mt annotate_cols_def
        annotate_rows_def demo_annotate_pca demo_regress demo_st11_def w)
qed

lemma demo_skat_mt:
  "skat_mt_of demo_pca_scores \<lparr>cols = demo_cols10, rows = [demo_row11]\<rparr>
   = Inr \<lparr>cols = demo_cols10, rows = [demo_row12]\<rparr>"
proof -
  have "call_stats_AF demo_calls [''A'', ''T''] = Some [100/101, 1/101]"
    by (simp add: call_stats_AF_def demo_calls_def AN_def Let_def upt_rec)
  then have "annotate_skat_weight (variant_qc demo_row11) = Inr demo_row12"
    by (simp add: annotate_skat_weight_def variant_qc_def hl_index_def demo_row12_def)
  then show ?thesis
    by (simp add: skat_mt_of_def annotate_cols_def annotate_rows_def and_then_def
        demo_annotate_pca)
qed

lemma demo_cell12: "cell_skat demo_lib demo_st11 = Inr demo_st12"
  by (simp add: cell_skat_def and_then_def need_def demo_v_mt demo_skat_mt call_skat_def
      demo_covariates demo_st12_def)
    (simp add: demo_st11_def demo_lib_def)

lemma demo_cell13: "cell_fault demo_st12 = Inr demo_st13"
  by (simp add: cell_fault_def and_then_def need_def demo_st12_def demo_st13_def
      annotate_fault_def demo_skat_row_def hl_eq_def hl_if_else_def)

lemma demo_cell14: "cell_linreg pheno2 demo_lib demo_st13 = Inr demo_st14"
proof -
  have "v_mt demo_st13 = Some \<lparr>cols = demo_cols10, rows = [demo_row11]\<rparr>"
    "v_pca_scores demo_st13 = Some demo_pca_scores"
    "v_linreg_results demo_st13 = Some [((''chr1'', 100), demo_lr)]"
    by (simp_all add: demo_st13_def demo_st12_def demo_st11_def demo_v_mt demo_st10_def)
  then show ?thesis
    by (simp add: cell_linreg_def and_then_def need_def annotate_cols_def
        demo_annotate_pca demo_covariates demo_st14_def)
      (simp add: demo_lib_def demo_lr_def)
qed

lemmas demo_cells = demo_cell1 demo_cell2 demo_cell3 demo_cell4 demo_cell5 demo_cell6 demo_cell7
  demo_cell8 demo_cell9 demo_cell10 demo_cell11 demo_cell12 demo_cell13 demo_cell14

lemma demo_run:
  "run_cells (rare_variant_cells demo_lib) (fresh_kernel demo_files) = Inr demo_st14"
  by (simp add: rare_variant_cells_def demo_cells)

lemma demo_run12:
  "run_cells (take 12 (rare_variant_cells demo_lib)) (fresh_kernel demo_files) = Inr demo_st12"
  by (simp add: rare_variant_cells_def demo_cells)

section \<open>What a cell leaves unchanged\<close>

lemma frame_read_mt:
  "cell_read_mt st = Inr st' \<Longrightarrow>
   files st' = files st \<and> v_sd st' = v_sd st \<and> v_genes st' = v_genes st \<and> v_phenos st' = v_phenos st"
  by (auto simp: cell_read_mt_def and_then_Inr_iff)

lemma frame_rare:
  "cell_rare st = Inr st' \<Longrightarrow>
   files st' = files st \<and> v_sd st' = v_sd st \<and> v_genes st' = v_genes st \<and> v_phenos st' = v_phenos st"
  by (auto simp: cell_rare_def and_then_Inr_iff)

lemma frame_non_ref:
  "cell_non_ref st = Inr st' \<Longrightarrow>
   files st' = files st \<and> v_sd st' = v_sd st \<and> v_genes st' = v_genes st \<and> v_phenos st' = v_phenos st"
  by (auto simp: cell_non_ref_def and_then_Inr_iff)

lemma frame_read_genes:
  "cell_read_genes st = Inr st' \<Longrightarrow>
   files st' = files st \<and> v_sd st' = v_sd st \<and> v_phenos st' = v_phenos st \<and> v_mt st' = v_mt st"
  by (auto simp: cell_read_genes_def and_then_Inr_iff)

lemma frame_gene_name:
  "cell_gene_name st = Inr st' \<Longrightarrow>
   files st' = files st \<and> v_sd st' = v_sd st \<and> v_genes st' = v_genes st \<and> v_phenos st' = v_phenos st"
  by (auto simp: cell_gene_name_def and_then_Inr_iff)

lemma frame_phenos:
  "cell_phenos st = Inr st' \<Longrightarrow>
   files st' = files st \<and> v_sd st' = v_sd st \<and> v_genes st' = v_genes st"
  by (auto simp: cell_phenos_def and_then_Inr_iff)

lemma frame_burden_mt:
  "cell_burden_mt st = Inr st' \<Longrightarrow>
   files st' = files st \<and> v_sd st' = v_sd st \<and> v_genes st' = v_genes st \<and> v_phenos st' = v_phenos st
   \<and> v_mt st' = v_mt st"
  by (auto simp: cell_burden_mt_def and_then_Inr_iff)

lemma frame_pca:
  "cell_pca lib st = Inr st' \<Longrightarrow>
   files st' = files st \<and> v_sd st' = v_sd st \<and> v_genes st' = v_genes st \<and> v_phenos st' = v_phenos st
   \<and> v_mt st' = v_mt st"
  by (auto simp: cell_pca_def and_then_Inr_iff)

lemma frame_burden_results:
  "cell_burden_results lib st = Inr st' \<Longrightarrow>
   files st' = files st \<and> v_sd st' = v_sd st \<and> v_genes st' = v_genes st \<and> v_phenos st' = v_phenos st
   \<and> v_mt st' = v_mt st"
  by (auto simp: cell_burden_results_def and_then_Inr_iff)

lemma frame_linreg:
  "cell_linreg pheno lib st = Inr st' \<Longrightarrow>
   files st' = files st \<and> v_sd st' = v_sd st \<and> v_genes st' = v_genes st \<and> v_phenos st' = v_phenos st"
  by (auto simp: cell_linreg_def and_then_Inr_iff)

lemma frame_weighted_burden:
  "cell_weighted_burden lib st = Inr st' \<Longrightarrow>
   files st' = files st \<and> v_sd st' = v_sd st \<and> v_genes st' = v_genes st \<and> v_phenos st' = v_phenos st"
  by (auto simp: cell_weighted_burden_def and_then_Inr_iff)

lemma frame_skat:
  "cell_skat lib st = Inr st' \<Longrightarrow>
   files st' = files st \<and> v_sd st' = v_sd st \<and> v_genes st' = v_genes st \<and> v_phenos st' = v_phenos st
   \<and> v_mt st' = v_mt st"
  by (auto simp: cell_skat_def and_then_Inr_iff)

lemma frame_fault:
  "cell_fault st = Inr st' \<Longrightarrow>
   files st' = files st \<and> v_sd st' = v_sd st \<and> v_genes st' = v_genes st \<and> v_phenos st' = v_phenos st
   \<and> v_mt st' = v_mt st \<and> v_skat_results st' = v_skat_results st"
  by (auto simp: cell_fault_def and_then_Inr_iff)

section \<open>What the notebooks read\<close>

lemma reads_only_read_mt: "reads_only rare_variant_inputs cell_read_mt"
  by (auto simp: reads_only_def same_inputs_def rare_variant_inputs_def cell_read_mt_def
      with_files_def and_then_def need_def read_matrix_table_def
      split: sum.splits option.splits resource.splits)

lemma reads_only_read_genes: "reads_only rare_variant_inputs cell_read_genes"
  by (auto simp: reads_only_def same_inputs_def rare_variant_inputs_def cell_read_genes_def
      with_files_def and_then_def need_def read_table_def
      split: sum.splits option.splits resource.splits)

lemma reads_only_phenos: "reads_only rare_variant_inputs cell_phenos"
  by (auto simp: reads_only_def same_inputs_def rare_variant_inputs_def cell_phenos_def
      with_files_def and_then_def need_def read_table_def
      split: sum.splits option.splits resource.splits)

lemma reads_only_rare: "reads_only ps cell_rare"
  by (auto simp: reads_only_def cell_rare_def with_files_def and_then_def need_def
      split: sum.splits option.splits resource.splits)

lemma reads_only_non_ref: "reads_only ps cell_non_ref"
  by (auto simp: reads_only_def cell_non_ref_def with_files_def and_then_def need_def
      split: sum.splits option.splits resource.splits)

lemma reads_only_gene_name: "reads_only ps cell_gene_name"
  by (auto simp: reads_only_def cell_gene_name_def with_files_def and_then_def need_def
      split: sum.splits option.splits resource.splits)

lemma reads_only_burden_mt: "reads_only ps cell_burden_mt"
  by (auto simp: reads_only_def cell_burden_mt_def with_files_def and_then_def need_def
      split: sum.splits option.splits resource.splits)

lemma reads_only_pca: "reads_only ps (cell_pca lib)"
  by (auto simp: reads_only_def cell_pca_def with_files_def and_then_def need_def
      split: sum.splits option.splits resource.splits)

lemma reads_only_burden_results: "reads_only ps (cell_burden_results lib)"
  by (auto simp: reads_only_def cell_burden_results_def with_files_def and_then_def need_def
      split: sum.splits option.splits resource.splits)

lemma reads_only_linreg: "reads_only ps (cell_linreg pheno lib)"
  by (auto simp: reads_only_def cell_linreg_def with_files_def and_then_def need_def
      split: sum.splits option.splits resource.splits)

lemma reads_only_weighted_burden: "reads_only ps (cell_weighted_burden lib)"
  by (auto simp: reads_only_def cell_weighted_burden_def with_files_def and_then_def need_def
      split: sum.splits option.splits resource.splits)

lemma reads_only_skat: "reads_only ps (cell_skat lib)"
  by (auto simp: reads_only_def cell_skat_def with_files_def and_then_def need_def
      split: sum.splits option.splits resource.splits)

lemma reads_only_fault: "reads_only ps cell_fault"
  by (auto simp: reads_only_def cell_fault_def with_files_def and_then_def need_def
      split: sum.splits option.splits resource.splits)

lemma reads_only_read_hgdp: "reads_only relatedness_inputs cell_read_hgdp"
  by (auto simp: reads_only_def same_inputs_def relatedness_inputs_def cell_read_hgdp_def
      with_files_def and_then_def need_def read_matrix_table_def import_table_def
      split: sum.splits option.splits resource.splits)

lemma rare_variant_cells_read_only:
  "c \<in> set (rare_variant_cells lib) \<Longrightarrow> reads_only rare_variant_inputs c"
  by (auto simp: rare_variant_cells_def reads_only_read_mt reads_only_read_genes
      reads_only_phenos reads_only_rare reads_only_non_ref reads_only_gene_name
      reads_only_burden_mt reads_only_pca reads_only_burden_results reads_only_linreg
      reads_only_weighted_burden reads_only_skat reads_only_fault)

lemma rare_variant_cells_keep_files:
  assumes "c \<in> set (rare_variant_cells lib)" "c st = Inr st'"
  shows "files st' = files st"
  using assms
  by (auto simp: rare_variant_cells_def frame_read_mt frame_rare frame_non_ref
      frame_read_genes frame_gene_name frame_phenos frame_burden_mt frame_pca
      frame_burden_results frame_linreg frame_weighted_burden frame_skat frame_fault)

lemma run_cells_reads_only:
  assumes "\<And>c. c \<in> set cs \<Longrightarrow> reads_only paths c"
    "\<And>c st st'. c \<in> set cs \<Longrightarrow> c st = Inr st' \<Longrightarrow> files st' = files st"
    "same_inputs paths (files st) fs'"
  shows "run_cells cs (st\<lparr>files := fs'\<rparr>) = with_files fs' (run_cells cs st)"
  using assms
proof (induction cs arbitrary: st)
  case Nil
  then show ?case by (simp add: with_files_def)
next
  case (Cons c cs)
  from Cons.prems(1)[of c] Cons.prems(3)
  have c: "c (st\<lparr>files := fs'\<rparr>) = with_files fs' (c st)" by (simp add: reads_only_def)
  show ?case
  proof (cases "c st")
    case (Inl e)
    with c show ?thesis by (simp add: with_files_def)
  next
    case (Inr s1)
    with Cons.prems(2)[of c st s1] Cons.prems(3)
    have "same_inputs paths (files s1) fs'" by simp
    then have "run_cells cs (s1\<lparr>files := fs'\<rparr>) = with_files fs' (run_cells cs s1)"
      by (intro Cons.IH) (auto intro: Cons.prems(1) dest: Cons.prems(2)[rotated])
    with c Inr show ?thesis by (simp add: with_files_def)
  qed
qed

lemma fresh_kernel_files: "(fresh_kernel fs)\<lparr>files := fs'\<rparr> = fresh_kernel fs'"
  "files (fresh_kernel fs) = fs"
  by (simp_all add: fresh_kernel_def)

lemma rare_variant_run_depends_on_inputs:
  assumes "same_inputs rare_variant_inputs fs fs'"
  shows "run_cells (rare_variant_cells lib) (fresh_kernel fs')
         = with_files fs' (run_cells (rare_variant_cells lib) (fresh_kernel fs))"
proof -
  have "run_cells (rare_variant_cells lib) ((fresh_kernel fs)\<lparr>files := fs'\<rparr>)
        = with_files fs' (run_cells (rare_variant_cells lib) (fresh_kernel fs))"
    using assms
    by (intro run_cells_reads_only[where paths = rare_variant_inputs])
      (auto intro: rare_variant_cells_read_only rare_variant_cells_keep_files
        simp: fresh_kernel_files)
  then show ?thesis by (simp add: fresh_kernel_files)
qed

lemma rare_variant_input_kinds:
  assumes "run_cells (rare_variant_cells lib) (fresh_kernel fs) = Inr st"
  shows "\<exists>m ivs ps.
           fs ''resources/hgdp-tgp-rare-variants.mt'' = Some (MatrixTableFile m)
           \<and> fs ''resources/genes.ht'' = Some (TableFile (GeneTable ivs))
           \<and> fs ''resources/rare-variant-phenotypes.ht'' = Some (TableFile (PhenoTable ps))"
proof -
  from assms obtain s1 s2 s3 s4 s5 s6 where s:
    "cell_read_mt (fresh_kernel fs) = Inr s1" "cell_rare s1 = Inr s2" "cell_non_ref s2 = Inr s3"
    "cell_read_genes s3 = Inr s4" "cell_gene_name s4 = Inr s5" "cell_phenos s5 = Inr s6"
    by (auto simp: rare_variant_cells_def split: sum.splits)
  have f: "files s1 = fs" "files s2 = fs" "files s3 = fs" "files s4 = fs" "files s5 = fs"
    using frame_read_mt[OF s(1)] frame_rare[OF s(2)] frame_non_ref[OF s(3)]
      frame_read_genes[OF s(4)] frame_gene_name[OF s(5)]
    by (simp_all add: fresh_kernel_files)
  from s(1) obtain m where m: "fs ''resources/hgdp-tgp-rare-variants.mt'' = Some (MatrixTableFile m)"
    by (auto simp: cell_read_mt_def and_then_Inr_iff read_matrix_table_def fresh_kernel_files
        split: option.splits resource.splits)
  from s(4) f(3) obtain g where g: "fs ''resources/genes.ht'' = Some (TableFile g)"
    "v_genes s4 = Some g"
    by (auto simp: cell_read_genes_def and_then_Inr_iff read_table_def
        split: option.splits resource.splits)
  from s(5) g(2) obtain ivs where ivs: "g = GeneTable ivs"
    by (auto simp: cell_gene_name_def and_then_Inr_iff need_Inr_iff genes_index_def
        split: table.splits)
  from s(6) f(5) obtain ps where "fs ''resources/rare-variant-phenotypes.ht'' = Some (TableFile (PhenoTable ps))"
    by (auto simp: cell_phenos_def and_then_Inr_iff read_table_def phenos_index_def
        split: option.splits resource.splits table.splits)
  with m g(1) ivs show ?thesis by blast
qed

lemma relatedness_input_kinds:
  assumes "cell_read_hgdp st = Inr st'"
  shows "\<exists>m rs. files st ''resources/hgdp.mt'' = Some (MatrixTableFile m)
           \<and> files st ''resources/HGDP_sample_data.tsv'' = Some (DelimitedFile (SampleTable rs))"
  using assms
  by (auto simp: cell_read_hgdp_def and_then_Inr_iff read_matrix_table_def import_table_def
      sd_index_def split: option.splits resource.splits table.splits)

text \<open>
  Claim C7: the notebooks read files of four kinds and nothing else.  The
  outcome of the rare-variant notebook is the same for any two file stores
  that agree at its three paths, and when it succeeds the three paths hold a
  genotype matrix table, a gene-interval table and a phenotype table; the
  loading cell of the relatedness notebook depends on its two paths only, and
  when it succeeds they hold a genotype matrix table and a delimited
  sample-data table.
\<close>

theorem notebook_inputs:
  "(same_inputs rare_variant_inputs fs fs'
      \<longrightarrow> run_cells (rare_variant_cells lib) (fresh_kernel fs')
          = with_files fs' (run_cells (rare_variant_cells lib) (fresh_kernel fs)))
   \<and> (run_cells (rare_variant_cells lib) (fresh_kernel fs) = Inr st
      \<longrightarrow> (\<exists>m ivs ps.
            fs ''resources/hgdp-tgp-rare-variants.mt'' = Some (MatrixTableFile m)
            \<and> fs ''resources/genes.ht'' = Some (TableFile (GeneTable ivs))
            \<and> fs ''resources/rare-variant-phenotypes.ht'' = Some (TableFile (PhenoTable ps))))
   \<and> (same_inputs relatedness_inputs (files st0) fs'
      \<longrightarrow> cell_read_hgdp (st0\<lparr>files := fs'\<rparr>) = with_files fs' (cell_read_hgdp st0))
   \<and> (cell_read_hgdp st0 = Inr st1
      \<longrightarrow> (\<exists>m rs.
            files st0 ''resources/hgdp.mt'' = Some (MatrixTableFile m)
            \<and> files st0 ''resources/HGDP_sample_data.tsv'' = Some (DelimitedFile (SampleTable rs))))"
  using rare_variant_run_depends_on_inputs[of fs fs' lib] rare_variant_input_kinds[of lib fs st]
    reads_only_read_hgdp relatedness_input_kinds[of st0 st1]
  by (simp add: reads_only_def)

section \<open>Exceptions and the SKAT fault code\<close>










section \<open>The claims on the worked example\<close>

lemma demo_run14:
  "run_cells (take 14 (rare_variant_cells demo_lib)) (fresh_kernel demo_files) = Inr demo_st14"
  by (simp add: rare_variant_cells_def demo_cells)


lemma demo_run9:
  "run_cells (take 9 (rare_variant_cells demo_lib)) (fresh_kernel demo_files) = Inr demo_st9"
  by (simp add: rare_variant_cells_def demo_cells)

lemma demo_run11:
  "run_cells (take 11 (rare_variant_cells demo_lib)) (fresh_kernel demo_files) = Inr demo_st11"
  by (simp add: rare_variant_cells_def demo_cells)


lemma demo_vars14:
  "v_mt demo_st14 = Some demo_mt11" "v_skat_mt demo_st14 = Some demo_skat_mt"
  "v_burden_mt demo_st14 = Some demo_burden_mt9" "v_xx demo_st14 = Some demo_xx"
  "v_ht demo_st14 = Some (VariantResults [((''chr1'', 100), demo_lr)])"
  by (simp_all add: demo_st14_def demo_st13_def demo_st12_def demo_st11_def demo_st10_def
      demo_st9_def demo_mt11_def demo_skat_mt_def demo_burden_mt9_def demo_xx_def)

lemma demo_vars9:
  "v_mt demo_st9 = Some demo_mt6" "v_burden_mt demo_st9 = Some demo_burden_mt9"
  "v_burden_results demo_st9 = Some [(Some ''G'', demo_lr)]"
  by (simp_all add: demo_st9_def demo_st8_def demo_st7_def demo_st6_def demo_mt6_def
      demo_burden_mt9_def)

lemma demo_vars12:
  "v_skat_mt demo_st12 = Some demo_skat_mt" "v_mt demo_st12 = Some demo_mt11"
  by (simp_all add: demo_st12_def demo_st11_def demo_mt11_def demo_skat_mt_def)

lemma demo_vars11:
  "v_mt demo_st11 = Some demo_mt11" "v_xx demo_st11 = Some demo_xx"
  "v_burden_mt demo_st11 = Some demo_burden_mt9"
  "v_genes demo_st11 = Some demo_genes" "v_phenos demo_st11 = Some demo_phenos"
  "v_sd demo_st11 = None" "files demo_st11 = demo_files"
  by (simp_all add: demo_st11_def demo_st10_def demo_st9_def demo_st8_def demo_st7_def
      demo_st6_def demo_st5_def demo_st4_def demo_st3_def demo_st2_def demo_st1_def
      fresh_kernel_def demo_mt11_def demo_xx_def demo_burden_mt9_def)

lemma demo_entry0 [simp]: "entry demo_row5 0 = Some (Call 1 1)" "entry demo_row11 0 = Some (Call 1 1)"
  by (simp_all add: entry_def demo_calls_def)

lemma demo_sums:
  "carried_variants [demo_row5] ''G'' 0 = 1" "two_alt_variants [demo_row5] ''G'' 0 = 1"
  "alt_allele_sum [demo_row5] ''G'' 0 = 2" "weighted_alt_allele_sum [demo_row11] ''G'' 0 = 40"
  by (simp_all add: carried_variants_def two_alt_variants_def alt_allele_sum_def
      weighted_alt_allele_sum_def carries_def has_two_alt_def)

lemma demo_x0: "n_variants_x demo_gene_row ! 0 = Some 1"
  by (simp add: n_variants_x_def demo_gene_row_def demo_n_variants_def)

lemma demo_aggregates:
  "burden_mt_of demo_mt11 = Inr demo_burden_mt9" "weighted_xx_of demo_mt11 = Inr demo_xx"
  by (simp_all add: burden_mt_of_def weighted_xx_of_def demo_mt11_def demo_group
      has_alt_def has_weighted_alt_def hl_gt_def hl_mul_def demo_filter_some demo_burden_mt9_def
      demo_xx_def)

text \<open>
  Claim C9 on the worked example: after the whole notebook the one row left in
  \<open>mt\<close> and in \<open>skat_mt\<close> satisfies the predicate, and \<open>burden_mt\<close> and \<open>xx\<close>
  have the one row that the aggregations compute from \<open>mt\<close>.
\<close>

theorem qc_invariant_witness:
  "(3::nat) \<le> 14
   \<and> run_cells (take 14 (rare_variant_cells demo_lib)) (fresh_kernel demo_files) = Inr demo_st14
   \<and> v_mt demo_st14 = Some demo_mt11 \<and> rows demo_mt11 = [demo_row11] \<and> qc_ok demo_row11
   \<and> v_skat_mt demo_st14 = Some demo_skat_mt \<and> rows demo_skat_mt = [demo_row12]
   \<and> qc_ok demo_row12
   \<and> v_burden_mt demo_st14 = Some demo_burden_mt9
   \<and> burden_mt_of demo_mt11 = Inr demo_burden_mt9
   \<and> v_xx demo_st14 = Some demo_xx \<and> weighted_xx_of demo_mt11 = Inr demo_xx"
proof -
  from qc_invariant[of 14 demo_lib demo_files demo_st14] demo_run14
  have "list_all qc_ok (rows demo_mt11) \<and> list_all qc_ok (rows demo_skat_mt)
      \<and> (\<exists>gm. burden_mt_of demo_mt11 = Inr gm \<and> grows demo_burden_mt9 = grows gm)
      \<and> (\<exists>gm. weighted_xx_of demo_mt11 = Inr gm \<and> grows demo_xx = grows gm)"
    by (simp add: demo_vars14)
  then have "qc_ok demo_row11" "qc_ok demo_row12"
    by (simp_all add: demo_mt11_def demo_skat_mt_def)
  then show ?thesis using demo_run14 demo_aggregates
    by (simp add: demo_vars14) (simp add: demo_mt11_def demo_skat_mt_def)
qed

text \<open>
  Claim C1, amended, on the worked example: after the cell of the burden test
  the regression has been handed \<open>x = 1\<close> for gene G and sample 0, which is
  homozygous alternate at the one variant of the gene, so it carries one
  variant and its alternate-allele sum is two.
\<close>

theorem burden_statistic_witness:
  "(9::nat) \<le> 9
   \<and> run_cells (take 9 (rare_variant_cells demo_lib)) (fresh_kernel demo_files) = Inr demo_st9
   \<and> v_mt demo_st9 = Some demo_mt6 \<and> v_burden_mt demo_st9 = Some demo_burden_mt9
   \<and> v_burden_results demo_st9 = Some [(Some ''G'', demo_lr)]
   \<and> linear_regression_rows demo_lib (map pheno1 (gcols demo_burden_mt9))
       (map n_variants_x (grows demo_burden_mt9)) demo_covs = Inr [demo_lr]
   \<and> demo_gene_row \<in> set (grows demo_burden_mt9) \<and> gene demo_gene_row = Some ''G''
   \<and> (0::nat) < length (cols demo_mt6)
   \<and> n_variants_x demo_gene_row ! 0 = Some (real_of_int (carried_variants (rows demo_mt6) ''G'' 0))
   \<and> carried_variants (rows demo_mt6) ''G'' 0 = 1
   \<and> two_alt_variants (rows demo_mt6) ''G'' 0 = 1
   \<and> alt_allele_sum (rows demo_mt6) ''G'' 0 = 2"
proof -
  have g: "demo_gene_row \<in> set (grows demo_burden_mt9)" "gene demo_gene_row = Some ''G''"
    "(0::nat) < length (cols demo_mt6)"
    by (simp_all add: demo_burden_mt9_def demo_gene_row_def demo_mt6_def)
  from burden_statistic[of 9 demo_lib demo_files demo_st9] demo_run9
  have "\<forall>gr \<in> set (grows demo_burden_mt9). \<forall>g j.
          gene gr = Some g \<and> j < length (cols demo_mt6) \<longrightarrow>
          n_variants_x gr ! j = Some (real_of_int (carried_variants (rows demo_mt6) g j))
          \<and> alt_allele_sum (rows demo_mt6) g j
              = carried_variants (rows demo_mt6) g j + two_alt_variants (rows demo_mt6) g j"
    by (auto simp: demo_vars9)
  with g have x: "n_variants_x demo_gene_row ! 0
      = Some (real_of_int (carried_variants (rows demo_mt6) ''G'' 0))"
    by blast
  have l: "linear_regression_rows demo_lib (map pheno1 (gcols demo_burden_mt9))
       (map n_variants_x (grows demo_burden_mt9)) demo_covs = Inr [demo_lr]"
    by (simp add: demo_lib_def demo_burden_mt9_def demo_lr_def)
  from x l g demo_run9 show ?thesis
    by (simp add: demo_vars9) (simp add: demo_mt6_def demo_sums)
qed

text \<open>
  Claim C1 as stated fails on the worked example: for gene G and sample 0 the
  notebook passes \<open>x = 1\<close> to the regression of the burden test, while the sum
  of the sample's alternate-allele counts is 2; the weighted burden cell
  passes 1 as well, while the weighted sum is 40.
\<close>

theorem burden_is_not_the_allele_sum:
  "run_cells (take 11 (rare_variant_cells demo_lib)) (fresh_kernel demo_files) = Inr demo_st11
   \<and> v_mt demo_st11 = Some demo_mt11 \<and> rows demo_mt11 = [demo_row11]
   \<and> gene_name demo_row11 = Some ''G''
   \<and> v_burden_mt demo_st11 = Some demo_burden_mt9
   \<and> grows demo_burden_mt9 = [demo_gene_row]
   \<and> n_variants_x demo_gene_row ! 0 = Some 1
   \<and> alt_allele_sum (rows demo_mt11) ''G'' 0 = 2
   \<and> v_xx demo_st11 = Some demo_xx
   \<and> grows demo_xx = [demo_gene_row]
   \<and> weighted_alt_allele_sum (rows demo_mt11) ''G'' 0 = 40"
  by (simp add: demo_run11 demo_vars11 demo_x0 demo_sums)
    (simp add: demo_mt11_def demo_burden_mt9_def demo_xx_def demo_gene_row_def demo_sums
      alt_allele_sum_def)

lemma demo_af: "alt_allele_frequency demo_row12 = Some (1/101)"
  by (simp add: alt_allele_frequency_def demo_row12_def demo_row11_def demo_row5_def
      demo_variant_def demo_calls_def)

text \<open>
  Claim C8 on the worked example: the variant has allele frequency 1/101 and
  the weight \<open>25 (100/101)^24\<close>.
\<close>

theorem skat_weight_is_beta_density_witness:
  "(12::nat) \<le> 12
   \<and> run_cells (take 12 (rare_variant_cells demo_lib)) (fresh_kernel demo_files) = Inr demo_st12
   \<and> v_skat_mt demo_st12 = Some demo_skat_mt \<and> rows demo_skat_mt = [demo_row12]
   \<and> alt_allele_frequency demo_row12 = Some (1/101)
   \<and> weight demo_row12 = Some (dbeta (1/101) 1 25)
   \<and> dbeta (1/101) 1 25 = 25 * (1 - 1/101) ^ 24
   \<and> dbeta (1/101) 1 25 \<noteq> pbeta_1 (1/101) 25"
proof -
  from skat_weight_is_beta_density[of 12 demo_lib demo_files demo_st12] demo_run12
  obtain af where af: "alt_allele_frequency demo_row12 = Some af"
    "weight demo_row12 = Some (dbeta af 1 25)" "dbeta af 1 25 = 25 * (1 - af) ^ 24"
    "dbeta af 1 25 \<noteq> pbeta_1 af 25"
    by (auto simp: demo_vars12 demo_skat_mt_def)
  from af(1) demo_af have "af = 1/101" by (simp only: option.inject)
  with af have "weight demo_row12 = Some (dbeta (1/101) 1 25)"
    "dbeta (1/101) 1 25 = 25 * (1 - 1/101) ^ 24" "dbeta (1/101) 1 25 \<noteq> pbeta_1 (1/101) 25"
    by blast+
  moreover have "rows demo_skat_mt = [demo_row12]" by (simp add: demo_skat_mt_def)
  ultimately show ?thesis using demo_run12 demo_af demo_vars12(1) by blast
qed





lemma enumerate_map_upt: "enumerate 0 (map f [0..<n]) = map (\<lambda>i. (i, f i)) [0..<n]"
  by (simp add: enumerate_eq_zip zip_map2 zip_same_conv_map)

lemma demo_annotate_sample_data:
  "annotate_list (annotate_sample_data (map_of demo_sd_rows)) (enumerate 0 demo_cols)
   = Inr demo_hgdp_cols"
proof -
  have "annotate_list (annotate_sample_data (map_of demo_sd_rows))
          (map (\<lambda>i. (i, demo_sample i)) [0..<101])
        = Inr (map (\<lambda>i. (demo_sample i)
                \<lparr>sample_idx := Some (int i),
                  sample_data := (if i = 0 then Some [(''continental_pop'', ''EUR'')] else None)\<rparr>)
              [0..<101])"
    by (simp add: annotate_list_map annotate_sample_data_def demo_sample_def demo_sd_rows_def o_def)
  then show ?thesis by (simp add: demo_cols_def enumerate_map_upt demo_hgdp_cols_def)
qed

lemma demo_read_hgdp: "cell_read_hgdp (fresh_kernel demo_files) = Inr demo_hgdp"
proof -
  have "read_matrix_table demo_files ''resources/hgdp.mt'' = Inr demo_mt"
    "import_table demo_files ''resources/HGDP_sample_data.tsv'' = Inr demo_sd"
    by (simp_all add: read_matrix_table_def import_table_def demo_files_def)
  moreover have "cols demo_mt = demo_cols" by (simp add: demo_mt_def)
  ultimately show ?thesis
    by (simp add: cell_read_hgdp_def and_then_def fresh_kernel_files sd_index_def demo_sd_def
        demo_annotate_sample_data demo_hgdp_def)
qed

lemma demo_same_inputs:
  "same_inputs rare_variant_inputs demo_files demo_more_files"
  "same_inputs relatedness_inputs demo_files demo_more_files"
  by (simp_all add: same_inputs_def rare_variant_inputs_def relatedness_inputs_def demo_files_def
      demo_more_files_def)

text \<open>
  Claim C7 on the worked example: a further file under \<open>resources/\<close> changes
  nothing in the outcome of either notebook.
\<close>

theorem notebook_inputs_witness:
  "same_inputs rare_variant_inputs demo_files demo_more_files
   \<and> run_cells (rare_variant_cells demo_lib) (fresh_kernel demo_files) = Inr demo_st14
   \<and> run_cells (rare_variant_cells demo_lib) (fresh_kernel demo_more_files)
       = Inr (demo_st14\<lparr>files := demo_more_files\<rparr>)
   \<and> demo_files ''resources/hgdp-tgp-rare-variants.mt'' = Some (MatrixTableFile demo_mt)
   \<and> demo_files ''resources/genes.ht'' = Some (TableFile demo_genes)
   \<and> demo_files ''resources/rare-variant-phenotypes.ht'' = Some (TableFile demo_phenos)
   \<and> same_inputs relatedness_inputs demo_files demo_more_files
   \<and> cell_read_hgdp (fresh_kernel demo_files) = Inr demo_hgdp
   \<and> cell_read_hgdp (fresh_kernel demo_more_files) = Inr (demo_hgdp\<lparr>files := demo_more_files\<rparr>)
   \<and> demo_files ''resources/hgdp.mt'' = Some (MatrixTableFile demo_mt)
   \<and> demo_files ''resources/HGDP_sample_data.tsv'' = Some (DelimitedFile demo_sd)"
proof -
  note T = notebook_inputs[of demo_files demo_more_files demo_lib demo_st14
      "fresh_kernel demo_files" demo_hgdp]
  from T demo_same_inputs(1) demo_run
  have r: "run_cells (rare_variant_cells demo_lib) (fresh_kernel demo_more_files)
       = Inr (demo_st14\<lparr>files := demo_more_files\<rparr>)"
    by (simp add: with_files_def)
  from T demo_same_inputs(2) demo_read_hgdp
  have h: "cell_read_hgdp (fresh_kernel demo_more_files) = Inr (demo_hgdp\<lparr>files := demo_more_files\<rparr>)"
    by (simp add: with_files_def fresh_kernel_files)
  have "demo_files ''resources/hgdp-tgp-rare-variants.mt'' = Some (MatrixTableFile demo_mt)"
    "demo_files ''resources/genes.ht'' = Some (TableFile demo_genes)"
    "demo_files ''resources/rare-variant-phenotypes.ht'' = Some (TableFile demo_phenos)"
    "demo_files ''resources/hgdp.mt'' = Some (MatrixTableFile demo_mt)"
    "demo_files ''resources/HGDP_sample_data.tsv'' = Some (DelimitedFile demo_sd)"
    by (simp_all add: demo_files_def)
  with r h demo_same_inputs demo_run demo_read_hgdp show ?thesis by simp
qed





text \<open>
  Claim C4 as stated fails: the value \<open>get_rel\<close> hands to the plots is not the
  relatedness graph looked up at the two sample indices as they come.  For
  the pair (2, 5) the graph has no entry under 2, and \<open>get_rel\<close> finds the
  kinship 1/4 under 5; for the self pair (7, 7) the graph has no entry at all
  and \<open>get_rel\<close> gives 0.5, which the identity-by-descent plot doubles.
\<close>

theorem get_rel_is_not_a_threaded_lookup:
  "get_rel demo_rel (Some 2) (Some 5) 0 = Some (1/4)
   \<and> threaded_lookup demo_rel (Some 2) (Some 5) = None
   \<and> get_rel demo_rel (Some 7) (Some 7) 0 = Some (1/2)
   \<and> threaded_lookup demo_rel (Some 7) (Some 7) = None
   \<and> ibd_plot_x demo_rel (Some 7) (Some 7) 0 = Some 1"
  by (simp add: get_rel_def ibd_plot_x_def get_rel_case_self get_rel_case_lt rel_entry_def
      threaded_lookup_def hl_get_def hl_add_def hl_mul_def demo_rel_def)

text \<open>
  Claim C4, amended: the notebooks add logic of their own to the library
  calls.  \<open>get_rel\<close> decides by cases: 0.5 for a self pair, otherwise the
  relatedness graph entry under the larger index first, 0.0 when there is
  none, plus the jitter; the identity-by-descent plot doubles it; \<open>weight1\<close>
  maps the consequence of a variant to 2, 3, 5 or 1, and \<open>weight2\<close> is the
  CADD score.
\<close>

theorem notebook_own_logic:
  "get_rel rel (Some s1) (Some s2) jitter
     = Some ((if s1 = s2 then 1/2
              else if s1 > s2 then rel_entry rel s1 s2 else rel_entry rel s2 s1) + jitter)
   \<and> ibd_plot_x rel (Some s1) (Some s2) jitter
     = Some (((if s1 = s2 then 1/2
               else if s1 > s2 then rel_entry rel s1 s2 else rel_entry rel s2 s1) + jitter) * 2)
   \<and> weight1 (annotate_weights r)
     = (case most_severe_consequence r of None \<Rightarrow> None
        | Some c \<Rightarrow> Some (if c = ''synonymous_variant'' then 2
                         else if c = ''intron_variant'' then 3
                         else if c = ''missense_variant'' then 5 else 1))
   \<and> weight2 (annotate_weights r) = cadd_phred r"
proof -
  have g: "get_rel_case rel (Some s1) (Some s2)
     = Some (if s1 = s2 then 1/2
             else if s1 > s2 then rel_entry rel s1 s2 else rel_entry rel s2 s1)"
    using get_rel_case_self[of rel s1] get_rel_case_gt[of s2 s1 rel] get_rel_case_lt[of s1 s2 rel]
    by (cases s1 s2 rule: linorder_cases) auto
  have w: "weight1 (annotate_weights r)
     = (case most_severe_consequence r of None \<Rightarrow> None
        | Some c \<Rightarrow> Some (if c = ''synonymous_variant'' then 2
                         else if c = ''intron_variant'' then 3
                         else if c = ''missense_variant'' then 5 else 1))"
    by (simp add: annotate_weights_def hl_eq_def hl_if_else_def split: option.splits)
  from g w show ?thesis
    by (simp add: get_rel_def ibd_plot_x_def hl_add_def hl_mul_def annotate_weights_def)
qed

end
